theory Spec2Isabelle
  imports Main "HOL-Library.Word"
begin

unbundle bit_operations_syntax

section \<open>sql-fs: a filesystem stored in three SQL relations\<close>

text \<open>
  The development embeds \<^verbatim>\<open>sqlfs/fs.go\<close> (the FUSE node operations and the SQL helper
  functions they call) together with the schema of the three relations \<^verbatim>\<open>tree\<close>,
  \<^verbatim>\<open>inodes\<close> and \<^verbatim>\<open>data_blocks\<close>.

  The SQL engine is not part of the repository. Its statements are modelled on row lists,
  with the constraints the schema declares: \<^verbatim>\<open>UNIQUE (name, parent)\<close> on \<^verbatim>\<open>tree\<close>, the
  primary key \<^verbatim>\<open>inode\<close> on \<^verbatim>\<open>inodes\<close>, the primary key \<^verbatim>\<open>(inode, sequence)\<close> on
  \<^verbatim>\<open>data_blocks\<close>, and the sequence \<^verbatim>\<open>inode_seq\<close> that supplies the default of
  \<^verbatim>\<open>tree.inode\<close>. A statement can also fail for reasons outside the program (connection
  loss, serialization conflict): every Go function takes an oracle \<open>f :: nat \<Rightarrow> bool\<close>,
  every statement the function can issue has a fixed number, and statement \<open>k\<close> fails with
  \<open>ErrStore\<close> when \<open>f k\<close> holds. The oracle \<open>reliable\<close> never fails.

  The program keeps no state of its own between requests, and the functions are modelled
  one request at a time: a function takes the committed database and returns the
  committed database after the call. Statements inside a transaction work on the
  transaction's view; the view becomes the committed database at \<^verbatim>\<open>tx.Commit()\<close> and is
  dropped at \<^verbatim>\<open>tx.Rollback()\<close>. Inode numbers are \<^verbatim>\<open>uint64\<close> as in the Go code.
\<close>

subsection \<open>Constants and basic types\<close>

type_synonym byte = "8 word"
type_synonym uint64 = "64 word"
type_synonym uint32 = "32 word"

text \<open>\<^verbatim>\<open>time.Time\<close> and \<^verbatim>\<open>time.Duration\<close> are opaque to the program: an integer each.\<close>

type_synonym time = int

definition rootInode :: uint64 where
  "rootInode = 1"

definition BLOCK_SIZE :: nat where
  "BLOCK_SIZE = 1024"

text \<open>The bits of Go's \<^verbatim>\<open>os.FileMode\<close> (package \<^verbatim>\<open>os\<close>, a \<^verbatim>\<open>uint32\<close>).\<close>

definition ModeDir :: uint32 where "ModeDir = push_bit 31 1"
definition ModeSymlink :: uint32 where "ModeSymlink = push_bit 27 1"
definition ModeDevice :: uint32 where "ModeDevice = push_bit 26 1"
definition ModeNamedPipe :: uint32 where "ModeNamedPipe = push_bit 25 1"
definition ModeSocket :: uint32 where "ModeSocket = push_bit 24 1"
definition ModeCharDevice :: uint32 where "ModeCharDevice = push_bit 21 1"
definition ModeIrregular :: uint32 where "ModeIrregular = push_bit 19 1"

definition ModeType :: uint32 where
  "ModeType = ModeDir OR ModeSymlink OR ModeNamedPipe OR ModeSocket OR ModeDevice
     OR ModeCharDevice OR ModeIrregular"

subsection \<open>Errors\<close>

text \<open>
  Errors of the SQL layer. \<open>ErrNoRows\<close> is \<^verbatim>\<open>sql.ErrNoRows\<close>, \<open>ErrUnique\<close> the engine's
  duplicate-key error, \<open>ErrStore\<close> a failure injected by the oracle, and \<open>Wrapf e msg\<close>
  is \<^verbatim>\<open>errors.Wrapf(e, msg, ...)\<close> (the format string is kept, its argument is not).
\<close>

datatype error = ErrNoRows | ErrUnique | ErrStore | Wrapf error string

text \<open>The error numbers listed at the head of \<^verbatim>\<open>fs.go\<close>, and \<^verbatim>\<open>ENOTEMPTY\<close>.\<close>

datatype errno = ENOSYS | ESTALE | ENOENT | EIO | EPERM | EINTR | ERANGE | ENOTSUP
  | EEXIST | ENOATTR | ENOTEMPTY

subsection \<open>Nodes\<close>

text \<open>
  \<^verbatim>\<open>type fileNode struct\<close>. The pointer \<^verbatim>\<open>fs\<close> is only ever compared with \<^verbatim>\<open>nil\<close> or
  followed to the one database handle, so it is a flag: \<open>fs n\<close> means \<^verbatim>\<open>n.fs != nil\<close>.
\<close>

record fileNode =
  fs :: bool
  Valid :: int
  Inode :: uint64
  Size :: uint64
  Blocks :: uint64
  Atime :: time
  Mtime :: time
  Ctime :: time
  Crtime :: time
  Mode :: uint32
  Nlink :: uint32
  Uid :: uint32
  Gid :: uint32
  Rdev :: uint32
  Flags :: uint32
  BlockSize :: uint32
  Name :: string
  SymlinkTarget :: string

text \<open>The zero value \<^verbatim>\<open>fileNode{}\<close>.\<close>

definition fileNode0 :: fileNode where
  "fileNode0 = \<lparr> fs = False, Valid = 0, Inode = 0, Size = 0, Blocks = 0, Atime = 0,
     Mtime = 0, Ctime = 0, Crtime = 0, Mode = 0, Nlink = 0, Uid = 0, Gid = 0, Rdev = 0,
     Flags = 0, BlockSize = 0, Name = [], SymlinkTarget = [] \<rparr>"

text \<open>
  The column \<^verbatim>\<open>inodes.struct_data\<close> holds \<^verbatim>\<open>json.Marshal(n)\<close>: every exported field
  except \<^verbatim>\<open>Inode\<close> and \<^verbatim>\<open>Name\<close>, which carry the tag \<^verbatim>\<open>json:"-"\<close>; the unexported \<^verbatim>\<open>fs\<close>
  is skipped too. The blob is modelled by the record of the fields it holds.
\<close>

record struct_data =
  sd_Valid :: int
  sd_Size :: uint64
  sd_Blocks :: uint64
  sd_Atime :: time
  sd_Mtime :: time
  sd_Ctime :: time
  sd_Crtime :: time
  sd_Mode :: uint32
  sd_Nlink :: uint32
  sd_Uid :: uint32
  sd_Gid :: uint32
  sd_Rdev :: uint32
  sd_Flags :: uint32
  sd_BlockSize :: uint32
  sd_SymlinkTarget :: string

definition toJSON :: "fileNode \<Rightarrow> struct_data" where
  "toJSON n = \<lparr> sd_Valid = Valid n, sd_Size = Size n, sd_Blocks = Blocks n,
     sd_Atime = Atime n, sd_Mtime = Mtime n, sd_Ctime = Ctime n, sd_Crtime = Crtime n,
     sd_Mode = Mode n, sd_Nlink = Nlink n, sd_Uid = Uid n, sd_Gid = Gid n,
     sd_Rdev = Rdev n, sd_Flags = Flags n, sd_BlockSize = BlockSize n,
     sd_SymlinkTarget = SymlinkTarget n \<rparr>"

text \<open>\<^verbatim>\<open>json.Unmarshal([]byte(struct_data), n)\<close>: the fields of the blob overwrite those of \<open>n\<close>.\<close>

definition Unmarshal :: "struct_data \<Rightarrow> fileNode \<Rightarrow> fileNode" where
  "Unmarshal sd n = n \<lparr> Valid := sd_Valid sd, Size := sd_Size sd, Blocks := sd_Blocks sd,
     Atime := sd_Atime sd, Mtime := sd_Mtime sd, Ctime := sd_Ctime sd,
     Crtime := sd_Crtime sd, Mode := sd_Mode sd, Nlink := sd_Nlink sd, Uid := sd_Uid sd,
     Gid := sd_Gid sd, Rdev := sd_Rdev sd, Flags := sd_Flags sd,
     BlockSize := sd_BlockSize sd, SymlinkTarget := sd_SymlinkTarget sd \<rparr>"

definition IsRegular :: "fileNode \<Rightarrow> bool" where
  "IsRegular n = (Mode n AND ModeType = 0)"

definition IsDirectory :: "fileNode \<Rightarrow> bool" where
  "IsDirectory n = (Mode n AND ModeDir \<noteq> 0)"

definition IsSymlink :: "fileNode \<Rightarrow> bool" where
  "IsSymlink n = (Mode n AND ModeSymlink \<noteq> 0)"

subsection \<open>The three relations\<close>

record tree_row =
  t_inode :: uint64
  t_parent :: uint64
  t_name :: string

record block_row =
  b_inode :: uint64
  b_sequence :: int
  b_data :: "byte list"

text \<open>
  \<open>inode_seq\<close> is the value the next \<^verbatim>\<open>nextval('inode_seq')\<close> returns (the schema starts
  it at 2). The column \<^verbatim>\<open>sequence\<close> and the Go variable that fills it are 64-bit signed;
  the variable counts chunks of a byte slice, so it stays far below \<open>2 ^ 63\<close> and is an \<open>int\<close>.
\<close>

record db =
  tree :: "tree_row list"
  inodes :: "(uint64 \<times> struct_data) list"
  data_blocks :: "block_row list"
  inode_seq :: uint64

subsection \<open>Statements\<close>

definition reliable :: "nat \<Rightarrow> bool" where
  "reliable k = False"

text \<open>\<open>shift k f\<close> is the oracle a callee sees when its first statement is the caller's \<open>k\<close>-th.\<close>

definition shift :: "nat \<Rightarrow> (nat \<Rightarrow> bool) \<Rightarrow> nat \<Rightarrow> bool" where
  "shift k f i = f (i + k)"

text \<open>A statement that the store may fail before it has any effect.\<close>

definition exec :: "bool \<Rightarrow> error + 'a \<Rightarrow> error + 'a" where
  "exec fails r = (if fails then Inl ErrStore else r)"

text \<open>\<^verbatim>\<open>DELETE FROM data_blocks WHERE inode = $1\<close>\<close>

definition delete_blocks :: "block_row list \<Rightarrow> uint64 \<Rightarrow> block_row list" where
  "delete_blocks blocks inode = filter (\<lambda>r. b_inode r \<noteq> inode) blocks"

text \<open>
  \<^verbatim>\<open>INSERT INTO data_blocks (inode, sequence, data) VALUES ($1, $2, $3)\<close>: a plain insert,
  refused when the primary key \<^verbatim>\<open>(inode, sequence)\<close> is taken.
\<close>

definition insert_block :: "block_row list \<Rightarrow> uint64 \<Rightarrow> int \<Rightarrow> byte list \<Rightarrow> error + block_row list" where
  "insert_block blocks inode sequence data =
     (if \<exists>r \<in> set blocks. b_inode r = inode \<and> b_sequence r = sequence then Inl ErrUnique
      else Inr (blocks @ [\<lparr> b_inode = inode, b_sequence = sequence, b_data = data \<rparr>]))"

text \<open>\<^verbatim>\<open>SELECT data FROM data_blocks WHERE inode = $1 ORDER BY sequence\<close>\<close>

definition select_blocks :: "block_row list \<Rightarrow> uint64 \<Rightarrow> byte list list" where
  "select_blocks blocks inode =
     map b_data (sort_key b_sequence (filter (\<lambda>r. b_inode r = inode) blocks))"

text \<open>
  \<^verbatim>\<open>UPSERT INTO inodes(inode, struct_data) VALUES ($1, $2)\<close>: the row with this primary key
  is replaced, or the row is added.
\<close>

fun upsert_inode :: "(uint64 \<times> struct_data) list \<Rightarrow> uint64 \<Rightarrow> struct_data \<Rightarrow> (uint64 \<times> struct_data) list" where
  "upsert_inode [] inode sd = [(inode, sd)]"
| "upsert_inode (r # rows) inode sd =
     (if fst r = inode then (inode, sd) # rows else r # upsert_inode rows inode sd)"

text \<open>\<^verbatim>\<open>DELETE FROM inodes WHERE inode = $1\<close>\<close>

definition delete_inode :: "(uint64 \<times> struct_data) list \<Rightarrow> uint64 \<Rightarrow> (uint64 \<times> struct_data) list" where
  "delete_inode rows inode = filter (\<lambda>r. fst r \<noteq> inode) rows"

text \<open>\<^verbatim>\<open>SELECT struct_data FROM inodes WHERE inode = $1 LIMIT 1\<close>, scanned into one variable.\<close>

definition select_inode :: "(uint64 \<times> struct_data) list \<Rightarrow> uint64 \<Rightarrow> error + struct_data" where
  "select_inode rows inode =
     (case map_of rows inode of None \<Rightarrow> Inl ErrNoRows | Some sd \<Rightarrow> Inr sd)"

subsection \<open>Content store\<close>

text \<open>
  The loop of \<^verbatim>\<open>WriteData\<close>. The insert of the chunk numbered \<open>sequence\<close> is statement
  \<open>sequence + 1\<close> of the transaction (after \<^verbatim>\<open>BeginTx\<close> and the \<^verbatim>\<open>DELETE\<close>). The result is
  the first error, or the value of \<^verbatim>\<open>sequence\<close> after the loop with the table.
\<close>

function write_chunks :: "(nat \<Rightarrow> bool) \<Rightarrow> uint64 \<Rightarrow> int \<Rightarrow> byte list \<Rightarrow> block_row list
    \<Rightarrow> error + (int \<times> block_row list)" where
  "write_chunks f inode sequence input blocks =
     (if length input = 0 then Inr (sequence, blocks)
      else if length input > BLOCK_SIZE then
        (case exec (f (nat sequence + 1)) (insert_block blocks inode sequence (take BLOCK_SIZE input)) of
           Inl err \<Rightarrow> Inl err
         | Inr blocks' \<Rightarrow> write_chunks f inode (sequence + 1) (drop BLOCK_SIZE input) blocks')
      else
        (case exec (f (nat sequence + 1)) (insert_block blocks inode sequence input) of
           Inl err \<Rightarrow> Inl err
         | Inr blocks' \<Rightarrow> write_chunks f inode (sequence + 1) (take 0 input) blocks'))"
  by pat_completeness auto
termination
  by (relation "measure (\<lambda>(f, inode, sequence, input, blocks). length input)")
     (auto simp: BLOCK_SIZE_def)

declare write_chunks.simps [simp del]

text \<open>
  \<^verbatim>\<open>WriteData\<close>. The node is passed by pointer and \<^verbatim>\<open>n.Size\<close> is assigned before the last
  statement, so the node is returned as the caller sees it afterwards. The database
  returned is the committed one: every path that ends in \<^verbatim>\<open>tx.Rollback()\<close>, and a
  failed \<^verbatim>\<open>tx.Commit()\<close>, leave it as it was.
\<close>

definition WriteData :: "(nat \<Rightarrow> bool) \<Rightarrow> db \<Rightarrow> fileNode \<Rightarrow> byte list \<Rightarrow> error option \<times> fileNode \<times> db" where
  "WriteData f d n data =
     (if f 0 then (Some ErrStore, n, d)
      else case exec (f 1) (Inr (delete_blocks (data_blocks d) (Inode n))) of
        Inl err \<Rightarrow> (Some err, n, d)
      | Inr blocks \<Rightarrow>
          (case write_chunks f (Inode n) 1 data blocks of
             Inl err \<Rightarrow> (Some err, n, d)
           | Inr (sequence, blocks') \<Rightarrow>
               (let n' = n \<lparr> Size := of_nat (length data) \<rparr> in
                case exec (f (nat sequence + 1)) (Inr (upsert_inode (inodes d) (Inode n') (toJSON n'))) of
                  Inl err \<Rightarrow> (Some err, n', d)
                | Inr inodes' \<Rightarrow>
                    if f (nat sequence + 2) then (Some ErrStore, n', d)
                    else (None, n', d \<lparr> inodes := inodes', data_blocks := blocks' \<rparr>))))"

text \<open>
  The loop of \<^verbatim>\<open>ReadData\<close>, \<^verbatim>\<open>for rows.Next() { ... rows.Scan(&currBlock) ... }\<close>. For
  the row at position \<open>j\<close> (from 0) the fetch by \<^verbatim>\<open>rows.Next()\<close> is statement \<open>2 * j + 1\<close>
  and \<^verbatim>\<open>rows.Scan\<close> is statement \<open>2 * j + 2\<close> (the query is statement 0). A fetch that
  fails makes \<^verbatim>\<open>rows.Next()\<close> return false: the loop ends as it does after the last row,
  and since \<^verbatim>\<open>rows.Err()\<close> is never read the bytes collected so far are returned with a
  \<^verbatim>\<open>nil\<close> error. Only a failed \<^verbatim>\<open>rows.Scan\<close> is returned as an error.
\<close>

fun scan_blocks :: "(nat \<Rightarrow> bool) \<Rightarrow> nat \<Rightarrow> byte list list \<Rightarrow> byte list \<Rightarrow> error + byte list" where
  "scan_blocks f k [] data = Inr data"
| "scan_blocks f k (currBlock # rows) data =
     (if f k then Inr data
      else if f (Suc k) then Inl ErrStore
      else scan_blocks f (Suc (Suc k)) rows (data @ currBlock))"

definition ReadData :: "(nat \<Rightarrow> bool) \<Rightarrow> db \<Rightarrow> uint64 \<Rightarrow> error + byte list" where
  "ReadData f d inode =
     (case exec (f 0) (Inr (select_blocks (data_blocks d) inode)) of
        Inl err \<Rightarrow> Inl err
      | Inr rows \<Rightarrow> scan_blocks f 1 rows [])"

subsection \<open>Tree statements\<close>

text \<open>
  The table \<^verbatim>\<open>tree\<close> declares no primary key, so the engine keys it by a hidden row
  identifier of its own and \<^verbatim>\<open>UPSERT INTO tree\<close> never meets an existing primary key: it
  is an insert, refused with a duplicate-key error when \<^verbatim>\<open>UNIQUE (name, parent)\<close> would
  be violated.
\<close>

definition insert_tree :: "tree_row list \<Rightarrow> uint64 \<Rightarrow> uint64 \<Rightarrow> string \<Rightarrow> error + tree_row list" where
  "insert_tree rows inode parent name =
     (if \<exists>r \<in> set rows. t_parent r = parent \<and> t_name r = name then Inl ErrUnique
      else Inr (rows @ [\<lparr> t_inode = inode, t_parent = parent, t_name = name \<rparr>]))"

text \<open>
  \<^verbatim>\<open>UPDATE tree SET name = $1, parent = $2 WHERE name = $3 AND parent = $4\<close>: refused when
  a row it writes ends up sharing \<^verbatim>\<open>(name, parent)\<close> with another row.
\<close>

definition update_tree :: "tree_row list \<Rightarrow> string \<Rightarrow> uint64 \<Rightarrow> string \<Rightarrow> uint64 \<Rightarrow> error + tree_row list" where
  "update_tree rows newName newParent oldName oldParent =
     (let rows' = map (\<lambda>r. if t_name r = oldName \<and> t_parent r = oldParent
                             then r \<lparr> t_name := newName, t_parent := newParent \<rparr> else r) rows
      in if (\<exists>r \<in> set rows. t_name r = oldName \<and> t_parent r = oldParent)
            \<and> length (filter (\<lambda>r. t_name r = newName \<and> t_parent r = newParent) rows') > 1
         then Inl ErrUnique else Inr rows')"

text \<open>\<^verbatim>\<open>DELETE FROM tree WHERE parent = $1 and name = $2\<close>\<close>

definition delete_tree :: "tree_row list \<Rightarrow> uint64 \<Rightarrow> string \<Rightarrow> tree_row list" where
  "delete_tree rows parent name = filter (\<lambda>r. \<not> (t_parent r = parent \<and> t_name r = name)) rows"

text \<open>\<^verbatim>\<open>SELECT inode FROM tree WHERE parent = $1 and name = $2 LIMIT 1\<close>, scanned into one variable.\<close>

definition select_tree_inode :: "tree_row list \<Rightarrow> uint64 \<Rightarrow> string \<Rightarrow> error + uint64" where
  "select_tree_inode rows parent name =
     (case filter (\<lambda>r. t_parent r = parent \<and> t_name r = name) rows of
        [] \<Rightarrow> Inl ErrNoRows
      | r # _ \<Rightarrow> Inr (t_inode r))"

text \<open>\<^verbatim>\<open>SELECT COUNT(*) FROM tree WHERE parent = $1\<close> and \<^verbatim>\<open>... WHERE inode = $1\<close>\<close>

definition count_tree_parent :: "tree_row list \<Rightarrow> uint64 \<Rightarrow> nat" where
  "count_tree_parent rows inode = length (filter (\<lambda>r. t_parent r = inode) rows)"

definition count_tree_inode :: "tree_row list \<Rightarrow> uint64 \<Rightarrow> nat" where
  "count_tree_inode rows inode = length (filter (\<lambda>r. t_inode r = inode) rows)"

subsection \<open>Node repository and tree resolver\<close>

definition GetNodeByID :: "(nat \<Rightarrow> bool) \<Rightarrow> db \<Rightarrow> uint64 \<Rightarrow> error + fileNode" where
  "GetNodeByID f d inode =
     (case exec (f 0) (select_inode (inodes d) inode) of
        Inl err \<Rightarrow> Inl err
      | Inr sd \<Rightarrow> Inr (Unmarshal sd (fileNode0 \<lparr> Inode := inode \<rparr>)))"

definition GetNodeByName :: "(nat \<Rightarrow> bool) \<Rightarrow> db \<Rightarrow> uint64 \<Rightarrow> string \<Rightarrow> error + fileNode" where
  "GetNodeByName f d parent name =
     (case exec (f 0) (select_tree_inode (tree d) parent name) of
        Inl err \<Rightarrow> Inl err
      | Inr inode \<Rightarrow> GetNodeByID (shift 1 f) d inode)"

definition UpdateNode :: "(nat \<Rightarrow> bool) \<Rightarrow> db \<Rightarrow> fileNode \<Rightarrow> error option \<times> db" where
  "UpdateNode f d n =
     (case exec (f 0) (Inr (upsert_inode (inodes d) (Inode n) (toJSON n))) of
        Inl err \<Rightarrow> (Some err, d)
      | Inr inodes' \<Rightarrow> (None, d \<lparr> inodes := inodes' \<rparr>))"

definition CountNodesInDir :: "(nat \<Rightarrow> bool) \<Rightarrow> db \<Rightarrow> uint64 \<Rightarrow> error + nat" where
  "CountNodesInDir f d inode = exec (f 0) (Inr (count_tree_parent (tree d) inode))"

text \<open>
  \<^verbatim>\<open>UpsertNode\<close>. The two readings of \<^verbatim>\<open>time.Now()\<close> are the parameters \<open>now1\<close> and
  \<open>now2\<close>. The first statement takes the new inode number from \<^verbatim>\<open>nextval('inode_seq')\<close>;
  a sequence is advanced outside the transaction, so the number stays consumed when the
  statement or the transaction fails.
\<close>

definition UpsertNode :: "(nat \<Rightarrow> bool) \<Rightarrow> time \<Rightarrow> time \<Rightarrow> db \<Rightarrow> uint64 \<Rightarrow> fileNode
    \<Rightarrow> error option \<times> fileNode \<times> db" where
  "UpsertNode f now1 now2 d parent n =
     (if f 0 then (Some ErrStore, n, d)
      else
        let n1 = n \<lparr> Mtime := now1, Ctime := now2 \<rparr> in
        if f 1 then (Some (Wrapf ErrStore ''failed to upsert row into tree in parent %d''), n1, d)
        else
          let lastId = inode_seq d;
              d1 = d \<lparr> inode_seq := inode_seq d + 1 \<rparr>
          in case insert_tree (tree d) lastId parent (Name n1) of
               Inl err \<Rightarrow> (Some (Wrapf err ''failed to upsert row into tree in parent %d''), n1, d1)
             | Inr tree' \<Rightarrow>
                 (let n2 = n1 \<lparr> Inode := lastId \<rparr> in
                  case exec (f 2) (Inr (upsert_inode (inodes d) lastId (toJSON n2))) of
                    Inl err \<Rightarrow> (Some (Wrapf err ''failed to upsert into inodes for inode %d''), n2, d1)
                  | Inr inodes' \<Rightarrow>
                      if f 3 then (Some ErrStore, n2, d1)
                      else (None, n2, d1 \<lparr> tree := tree', inodes := inodes' \<rparr>)))"

text \<open>
  \<^verbatim>\<open>CreateLink\<close>. The node is read through \<^verbatim>\<open>db\<close>, not through \<^verbatim>\<open>tx\<close>: it sees the
  committed \<^verbatim>\<open>inodes\<close>, which the transaction has not written yet.
\<close>

definition CreateLink :: "(nat \<Rightarrow> bool) \<Rightarrow> db \<Rightarrow> uint64 \<Rightarrow> fileNode \<Rightarrow> error option \<times> db" where
  "CreateLink f d parent n =
     (if f 0 then (Some ErrStore, d)
      else case exec (f 1) (insert_tree (tree d) (Inode n) parent (Name n)) of
        Inl err \<Rightarrow> (Some (Wrapf err ''failed to upsert row into tree in parent %d''), d)
      | Inr tree' \<Rightarrow>
          (case GetNodeByID (shift 2 f) d (Inode n) of
             Inl err \<Rightarrow> (Some (Wrapf err ''failed to retrieve node for update %d''), d)
           | Inr toUpdate \<Rightarrow>
               (let toUpdate' = toUpdate \<lparr> Nlink := Nlink toUpdate + 1, Name := Name n \<rparr> in
                case exec (f 3) (Inr (upsert_inode (inodes d) (Inode n) (toJSON toUpdate'))) of
                  Inl err \<Rightarrow> (Some (Wrapf err ''failed to upsert into inodes for inode %d''), d)
                | Inr inodes' \<Rightarrow>
                    if f 4 then (Some ErrStore, d)
                    else (None, d \<lparr> tree := tree', inodes := inodes' \<rparr>))))"

definition RenameNode :: "(nat \<Rightarrow> bool) \<Rightarrow> db \<Rightarrow> uint64 \<Rightarrow> string \<Rightarrow> uint64 \<Rightarrow> string \<Rightarrow> error option \<times> db" where
  "RenameNode f d oldParent oldName newParent newName =
     (case exec (f 0) (update_tree (tree d) newName newParent oldName oldParent) of
        Inl err \<Rightarrow> (Some (Wrapf err ''failed to rename node''), d)
      | Inr tree' \<Rightarrow> (None, d \<lparr> tree := tree' \<rparr>))"

text \<open>
  \<^verbatim>\<open>RemoveNodeByName\<close>. The result has three parts: the returned error, the committed
  database, and the view of a transaction the function has left open. The branch
  \<^verbatim>\<open>if count > 0 { return nil }\<close> returns without \<^verbatim>\<open>tx.Commit()\<close> and without
  \<^verbatim>\<open>tx.Rollback()\<close>: the delete of the tree row exists only inside that transaction, the
  committed database is the one before the call. (\<^verbatim>\<open>database/sql\<close> rolls a transaction
  back when the context it was begun with is cancelled, which the FUSE server does when
  the request is answered.)
\<close>

definition RemoveNodeByName :: "(nat \<Rightarrow> bool) \<Rightarrow> db \<Rightarrow> uint64 \<Rightarrow> string \<Rightarrow> uint64
    \<Rightarrow> error option \<times> db \<times> db option" where
  "RemoveNodeByName f d parent name inode =
     (if f 0 then (Some ErrStore, d, None)
      else case exec (f 1) (Inr (delete_tree (tree d) parent name)) of
        Inl err \<Rightarrow> (Some err, d, None)
      | Inr tree' \<Rightarrow>
          (case exec (f 2) (Inr (count_tree_inode tree' inode)) of
             Inl err \<Rightarrow> (Some err, d, None)
           | Inr count \<Rightarrow>
               if count > 0 then (None, d, Some (d \<lparr> tree := tree' \<rparr>))
               else
                 (case exec (f 3) (Inr (delete_inode (inodes d) inode)) of
                    Inl err \<Rightarrow> (Some err, d, None)
                  | Inr inodes' \<Rightarrow>
                      (case exec (f 4) (Inr (delete_blocks (data_blocks d) inode)) of
                         Inl err \<Rightarrow> (Some err, d, None)
                       | Inr blocks' \<Rightarrow>
                           if f 5 then (Some ErrStore, d, None)
                           else (None, d \<lparr> tree := tree', inodes := inodes',
                                   data_blocks := blocks' \<rparr>, None)))))"

subsection \<open>Operation dispatcher\<close>

text \<open>
  What a FUSE method hands back instead of a result: an error number, or the panic of a
  \<^verbatim>\<open>nil\<close> pointer dereference (\<^verbatim>\<open>n.fs.db\<close> with \<^verbatim>\<open>n.fs == nil\<close>) in the methods that do
  not test \<^verbatim>\<open>n.fs\<close> first.
\<close>

datatype failure = Errno errno | NilDeref

text \<open>\<^verbatim>\<open>fileSystem.Root\<close>; \<^verbatim>\<open>0555\<close> is octal.\<close>

definition Root :: fileNode where
  "Root = fileNode0 \<lparr> Inode := rootInode, Mode := ModeDir OR 365, fs := True \<rparr>"

record Attr =
  a_Inode :: uint64
  a_Size :: uint64
  a_Blocks :: uint64
  a_Atime :: time
  a_Mtime :: time
  a_Ctime :: time
  a_Crtime :: time
  a_Mode :: uint32
  a_Nlink :: uint32
  a_Uid :: uint32
  a_Gid :: uint32
  a_Rdev :: uint32
  a_Flags :: uint32
  a_BlockSize :: uint32

text \<open>
  \<^verbatim>\<open>fileNode.Attr\<close>. It never returns an error: a failed \<^verbatim>\<open>GetNodeByID\<close> only makes it
  fall back on the link count held in memory.
\<close>

definition Attr :: "(nat \<Rightarrow> bool) \<Rightarrow> db \<Rightarrow> fileNode \<Rightarrow> failure + Attr" where
  "Attr f d n =
     (if \<not> fs n then Inl NilDeref
      else Inr \<lparr> a_Inode = Inode n,
             a_Size = (if IsSymlink n then of_nat (length (SymlinkTarget n)) else Size n),
             a_Blocks = Size n div 512,
             a_Atime = Atime n, a_Mtime = Mtime n, a_Ctime = Ctime n, a_Crtime = Crtime n,
             a_Mode = Mode n,
             a_Nlink = (case GetNodeByID f d (Inode n) of
                          Inr updated \<Rightarrow> Nlink updated | Inl err \<Rightarrow> Nlink n),
             a_Uid = Uid n, a_Gid = Gid n, a_Rdev = Rdev n, a_Flags = Flags n,
             a_BlockSize = of_nat BLOCK_SIZE \<rparr>)"

text \<open>
  \<^verbatim>\<open>fuse.SetattrRequest\<close>: a field is \<open>Some v\<close> when its bit of \<^verbatim>\<open>req.Valid\<close> is set and the
  request carries \<open>v\<close>. The response, a copy of the values set, is left out.
\<close>

record SetattrRequest =
  sr_Mode :: "uint32 option"
  sr_Uid :: "uint32 option"
  sr_Gid :: "uint32 option"
  sr_Size :: "uint64 option"
  sr_Atime :: "time option"
  sr_Mtime :: "time option"
  sr_Crtime :: "time option"

definition assign :: "'a option \<Rightarrow> 'a \<Rightarrow> 'a" where
  "assign v old = (case v of Some x \<Rightarrow> x | None \<Rightarrow> old)"

definition Setattr :: "(nat \<Rightarrow> bool) \<Rightarrow> db \<Rightarrow> fileNode \<Rightarrow> SetattrRequest
    \<Rightarrow> failure option \<times> fileNode \<times> db" where
  "Setattr f d n req =
     (let n' = n \<lparr> Mode := assign (sr_Mode req) (Mode n), Uid := assign (sr_Uid req) (Uid n),
                   Gid := assign (sr_Gid req) (Gid n), Size := assign (sr_Size req) (Size n),
                   Atime := assign (sr_Atime req) (Atime n),
                   Mtime := assign (sr_Mtime req) (Mtime n),
                   Crtime := assign (sr_Crtime req) (Crtime n) \<rparr>
      in if \<not> fs n then (Some NilDeref, n', d)
         else case UpdateNode f d n' of
           (Some err, d') \<Rightarrow> (Some (Errno EIO), n', d')
         | (None, d') \<Rightarrow> (None, n', d'))"

text \<open>\<^verbatim>\<open>Link\<close>: \<open>old\<close> is the node behind the interface value, \<open>newName\<close> is \<^verbatim>\<open>req.NewName\<close>.\<close>

definition Link :: "(nat \<Rightarrow> bool) \<Rightarrow> db \<Rightarrow> fileNode \<Rightarrow> string \<Rightarrow> fileNode \<Rightarrow> (failure + fileNode) \<times> db" where
  "Link f d n newName old =
     (if \<not> fs n then (Inl (Errno EIO), d)
      else if \<not> IsDirectory n then (Inl (Errno EIO), d)
      else case Attr f d old of
        Inl p \<Rightarrow> (Inl p, d)
      | Inr attr \<Rightarrow>
          (let newNode = fileNode0 \<lparr> Inode := a_Inode attr, Name := newName \<rparr> in
           case CreateLink (shift 1 f) d (Inode n) newNode of
             (Some err, d') \<Rightarrow> (Inl (Errno EIO), d')
           | (None, d') \<Rightarrow>
               (case GetNodeByID (shift 6 f) d' (a_Inode attr) of
                  Inl err \<Rightarrow> (Inl (Errno EIO), d')
                | Inr newNode' \<Rightarrow> (Inr (newNode' \<lparr> Name := newName, fs := fs n \<rparr>), d'))))"

record RemoveRequest =
  rr_Name :: string
  rr_Dir :: bool

text \<open>\<^verbatim>\<open>Remove\<close>: the error, the committed database, and the transaction left open, if any.\<close>

definition Remove :: "(nat \<Rightarrow> bool) \<Rightarrow> db \<Rightarrow> fileNode \<Rightarrow> RemoveRequest \<Rightarrow> failure option \<times> db \<times> db option" where
  "Remove f d n req =
     (if \<not> fs n then (Some (Errno EIO), d, None)
      else case GetNodeByName f d (Inode n) (rr_Name req) of
        Inl err \<Rightarrow> (Some (Errno EIO), d, None)
      | Inr toRemove \<Rightarrow>
          (case (if rr_Dir req
                 then (case CountNodesInDir (shift 2 f) d (Inode toRemove) of
                         Inl err \<Rightarrow> Some (Errno EIO)
                       | Inr count \<Rightarrow> if count > 0 then Some (Errno ENOTEMPTY) else None)
                 else None) of
             Some e \<Rightarrow> (Some e, d, None)
           | None \<Rightarrow>
               (case RemoveNodeByName (shift 3 f) d (Inode n) (rr_Name req) (Inode toRemove) of
                  (Some err, d', open_tx) \<Rightarrow> (Some (Errno EIO), d', open_tx)
                | (None, d', open_tx) \<Rightarrow> (None, d', open_tx))))"

definition Lookup :: "(nat \<Rightarrow> bool) \<Rightarrow> db \<Rightarrow> fileNode \<Rightarrow> string \<Rightarrow> failure + fileNode" where
  "Lookup f d n name =
     (if \<not> fs n then Inl (Errno EIO)
      else if \<not> IsDirectory n then Inl (Errno EIO)
      else case GetNodeByName f d (Inode n) name of
        Inl err \<Rightarrow> Inl (Errno ENOENT)
      | Inr lookupNode \<Rightarrow> Inr (lookupNode \<lparr> fs := fs n \<rparr>))"

text \<open>\<^verbatim>\<open>Mkdir\<close> and \<^verbatim>\<open>Create\<close>: \<open>name\<close> and \<open>mode\<close> are \<^verbatim>\<open>req.Name\<close> and \<^verbatim>\<open>req.Mode\<close>.\<close>

definition Mkdir :: "(nat \<Rightarrow> bool) \<Rightarrow> time \<Rightarrow> time \<Rightarrow> db \<Rightarrow> fileNode \<Rightarrow> string \<Rightarrow> uint32
    \<Rightarrow> (failure + fileNode) \<times> db" where
  "Mkdir f now1 now2 d n name mode =
     (if \<not> fs n then (Inl (Errno EIO), d)
      else
        let newNode = fileNode0 \<lparr> fs := fs n, Name := name, Mode := mode, Nlink := 2 \<rparr> in
        case UpsertNode f now1 now2 d (Inode n) newNode of
          (Some err, newNode', d') \<Rightarrow> (Inl (Errno EIO), d')
        | (None, newNode', d') \<Rightarrow> (Inr newNode', d'))"

definition Create :: "(nat \<Rightarrow> bool) \<Rightarrow> time \<Rightarrow> time \<Rightarrow> db \<Rightarrow> fileNode \<Rightarrow> string \<Rightarrow> uint32
    \<Rightarrow> (failure + fileNode) \<times> db" where
  "Create f now1 now2 d n name mode =
     (if \<not> fs n then (Inl (Errno EIO), d)
      else
        let newNode = fileNode0 \<lparr> fs := fs n, Name := name, Mode := mode, Nlink := 1 \<rparr> in
        case UpsertNode f now1 now2 d (Inode n) newNode of
          (Some err, newNode', d') \<Rightarrow> (Inl (Errno EIO), d')
        | (None, newNode', d') \<Rightarrow> (Inr newNode', d'))"

text \<open>
  \<^verbatim>\<open>Mknod\<close> builds the same node as \<^verbatim>\<open>Create\<close>; \<^verbatim>\<open>Symlink\<close> asks for a directory as
  receiver and stores the target (\<^verbatim>\<open>req.NewName\<close>, \<^verbatim>\<open>req.Target\<close>; \<^verbatim>\<open>0755\<close> is octal).
\<close>

definition Mknod :: "(nat \<Rightarrow> bool) \<Rightarrow> time \<Rightarrow> time \<Rightarrow> db \<Rightarrow> fileNode \<Rightarrow> string \<Rightarrow> uint32
    \<Rightarrow> (failure + fileNode) \<times> db" where
  "Mknod f now1 now2 d n name mode =
     (if \<not> fs n then (Inl (Errno EIO), d)
      else
        let newNode = fileNode0 \<lparr> fs := fs n, Name := name, Mode := mode, Nlink := 1 \<rparr> in
        case UpsertNode f now1 now2 d (Inode n) newNode of
          (Some err, newNode', d') \<Rightarrow> (Inl (Errno EIO), d')
        | (None, newNode', d') \<Rightarrow> (Inr newNode', d'))"

definition Symlink :: "(nat \<Rightarrow> bool) \<Rightarrow> time \<Rightarrow> time \<Rightarrow> db \<Rightarrow> fileNode \<Rightarrow> string \<Rightarrow> string
    \<Rightarrow> (failure + fileNode) \<times> db" where
  "Symlink f now1 now2 d n newName target =
     (if \<not> fs n then (Inl (Errno EIO), d)
      else if \<not> IsDirectory n then (Inl (Errno EIO), d)
      else
        let newNode = fileNode0 \<lparr> fs := fs n, Name := newName, Mode := ModeSymlink OR 493,
                                  SymlinkTarget := target, Nlink := 1 \<rparr> in
        case UpsertNode f now1 now2 d (Inode n) newNode of
          (Some err, newNode', d') \<Rightarrow> (Inl (Errno EIO), d')
        | (None, newNode', d') \<Rightarrow> (Inr newNode', d'))"

definition Rename :: "(nat \<Rightarrow> bool) \<Rightarrow> db \<Rightarrow> fileNode \<Rightarrow> string \<Rightarrow> string \<Rightarrow> fileNode \<Rightarrow> failure option \<times> db" where
  "Rename f d n oldName newName newDir =
     (if \<not> fs n then (Some (Errno EIO), d)
      else case Attr f d newDir of
        Inl p \<Rightarrow> (Some p, d)
      | Inr attr \<Rightarrow>
          (case RenameNode (shift 1 f) d (Inode n) oldName (a_Inode attr) newName of
             (Some err, d') \<Rightarrow> (Some (Errno EIO), d')
           | (None, d') \<Rightarrow> (None, d')))"

text \<open>\<^verbatim>\<open>Write\<close> passes \<^verbatim>\<open>req.Data\<close> on and ignores \<^verbatim>\<open>req.Offset\<close>.\<close>

definition Write :: "(nat \<Rightarrow> bool) \<Rightarrow> db \<Rightarrow> fileNode \<Rightarrow> byte list \<Rightarrow> failure option \<times> fileNode \<times> db" where
  "Write f d n data =
     (if \<not> fs n then (Some NilDeref, n, d)
      else case WriteData f d n data of
        (Some err, n', d') \<Rightarrow> (Some (Errno EIO), n', d')
      | (None, n', d') \<Rightarrow> (None, n', d'))"

section \<open>Specification-side definitions\<close>

text \<open>
  The definitions of this section are not translated from a function of the program: they
  say, in the words of the specification, what the program is compared with.

  \<open>split_chunks\<close> is "the content split into fixed-size chunks": every chunk takes
  \<open>BLOCK_SIZE\<close> bytes while that many are left, and the last one takes the rest.
  \<open>number_chunks\<close> numbers the chunks of one inode consecutively from a first sequence
  number. \<open>written d n data\<close> is the database after a whole-file write: the old blocks of
  the inode are gone, the numbered chunks of \<open>data\<close> are there, and the node row holds
  the node with its size set to the length of \<open>data\<close>.
\<close>

function split_chunks :: "byte list \<Rightarrow> byte list list" where
  "split_chunks input =
     (if input = [] then [] else take BLOCK_SIZE input # split_chunks (drop BLOCK_SIZE input))"
  by pat_completeness auto
termination
  by (relation "measure length") (auto simp: BLOCK_SIZE_def)

declare split_chunks.simps [simp del]

fun number_chunks :: "uint64 \<Rightarrow> int \<Rightarrow> byte list list \<Rightarrow> block_row list" where
  "number_chunks inode sequence [] = []"
| "number_chunks inode sequence (c # cs) =
     \<lparr> b_inode = inode, b_sequence = sequence, b_data = c \<rparr> # number_chunks inode (sequence + 1) cs"

definition written :: "db \<Rightarrow> fileNode \<Rightarrow> byte list \<Rightarrow> db" where
  "written d n data =
     d \<lparr> inodes := upsert_inode (inodes d) (Inode n) (toJSON (n \<lparr> Size := of_nat (length data) \<rparr>)),
         data_blocks := delete_blocks (data_blocks d) (Inode n)
                          @ number_chunks (Inode n) 1 (split_chunks data) \<rparr>"

text \<open>
  \<open>inserted now1 now2 d parent n\<close> is the node and the database after a new object has
  been inserted under \<open>parent\<close>: the inode number comes from the sequence, the tree entry
  and the node row are added together.
\<close>

definition inserted :: "time \<Rightarrow> time \<Rightarrow> db \<Rightarrow> uint64 \<Rightarrow> fileNode \<Rightarrow> fileNode \<times> db" where
  "inserted now1 now2 d parent n =
     (let n' = n \<lparr> Mtime := now1, Ctime := now2, Inode := inode_seq d \<rparr>
      in (n', d \<lparr> tree := tree d @ [\<lparr> t_inode = inode_seq d, t_parent = parent, t_name = Name n \<rparr>],
                  inodes := upsert_inode (inodes d) (inode_seq d) (toJSON n'),
                  inode_seq := inode_seq d + 1 \<rparr>))"

text \<open>
  \<open>tree_unique\<close> is the schema's \<^verbatim>\<open>UNIQUE (name, parent)\<close> as a property of the table, and
  \<open>renamed\<close> is the table after the entry \<open>(oldParent, oldName)\<close> has been given a new
  parent and a new name, every other column and row as before.
\<close>

definition tree_unique :: "tree_row list \<Rightarrow> bool" where
  "tree_unique rows = distinct (map (\<lambda>r. (t_name r, t_parent r)) rows)"

definition renamed :: "tree_row list \<Rightarrow> string \<Rightarrow> uint64 \<Rightarrow> string \<Rightarrow> uint64 \<Rightarrow> tree_row list" where
  "renamed rows newName newParent oldName oldParent =
     map (\<lambda>r. if t_name r = oldName \<and> t_parent r = oldParent
               then r \<lparr> t_name := newName, t_parent := newParent \<rparr> else r) rows"

text \<open>
  \<open>removed d parent name inode\<close> is the database after the last name of an inode has been
  removed: the tree entry, the node row and every data block of the inode are gone.
  \<open>linked d parent name inode sd\<close> is the database after a further name has been given to
  the inode whose node row was \<open>sd\<close>: one more tree entry, and the link count of the row
  is one higher.
\<close>

definition removed :: "db \<Rightarrow> uint64 \<Rightarrow> string \<Rightarrow> uint64 \<Rightarrow> db" where
  "removed d parent name inode =
     d \<lparr> tree := filter (\<lambda>r. \<not> (t_parent r = parent \<and> t_name r = name)) (tree d),
         inodes := filter (\<lambda>r. fst r \<noteq> inode) (inodes d),
         data_blocks := filter (\<lambda>r. b_inode r \<noteq> inode) (data_blocks d) \<rparr>"

definition linked :: "db \<Rightarrow> uint64 \<Rightarrow> string \<Rightarrow> uint64 \<Rightarrow> struct_data \<Rightarrow> db" where
  "linked d parent name inode sd =
     d \<lparr> tree := tree d @ [\<lparr> t_inode = inode, t_parent = parent, t_name = name \<rparr>],
         inodes := upsert_inode (inodes d) inode (sd \<lparr> sd_Nlink := sd_Nlink sd + 1 \<rparr>) \<rparr>"

text \<open>
  \<open>size_matches_blocks d i\<close> is the invariant of the data model for inode \<open>i\<close>: when its
  node row is a regular file, the recorded size is the number of bytes in the
  concatenation of its data blocks, taken in sequence order.
\<close>

definition size_matches_blocks :: "db \<Rightarrow> uint64 \<Rightarrow> bool" where
  "size_matches_blocks d i =
     (case select_inode (inodes d) i of
        Inl err \<Rightarrow> True
      | Inr sd \<Rightarrow> sd_Mode sd AND ModeType = 0
                  \<longrightarrow> unat (sd_Size sd) = length (concat (select_blocks (data_blocks d) i)))"

subsection \<open>Example states and requests\<close>

text \<open>The database right after the schema has been loaded.\<close>

definition db0 :: db where
  "db0 = \<lparr> tree = [], inodes = [], data_blocks = [], inode_seq = 2 \<rparr>"

text \<open>
  A small populated database for the worked examples: the directory \<^verbatim>\<open>/a\<close> (inode 2),
  a file with the two names \<^verbatim>\<open>/a/b\<close> and \<^verbatim>\<open>/c\<close> (inode 3, content \<^verbatim>\<open>hello\<close>), and a
  file with the single name \<^verbatim>\<open>/f\<close> (inode 4, content \<^verbatim>\<open>hi\<close>). The modes are octal
  \<^verbatim>\<open>0755\<close> and \<^verbatim>\<open>0644\<close>.
\<close>

definition dir_node :: fileNode where
  "dir_node = fileNode0 \<lparr> Mode := ModeDir OR 493, Nlink := 2 \<rparr>"

definition file_node :: fileNode where
  "file_node = fileNode0 \<lparr> Mode := 420, Nlink := 2, Size := 5 \<rparr>"

definition single_node :: fileNode where
  "single_node = fileNode0 \<lparr> Mode := 420, Nlink := 1, Size := 2 \<rparr>"

definition db1 :: db where
  "db1 = \<lparr> tree = [\<lparr> t_inode = 2, t_parent = 1, t_name = ''a'' \<rparr>,
                     \<lparr> t_inode = 3, t_parent = 2, t_name = ''b'' \<rparr>,
                     \<lparr> t_inode = 3, t_parent = 1, t_name = ''c'' \<rparr>,
                     \<lparr> t_inode = 4, t_parent = 1, t_name = ''f'' \<rparr>],
            inodes = [(2, toJSON dir_node), (3, toJSON file_node), (4, toJSON single_node)],
            data_blocks = [\<lparr> b_inode = 3, b_sequence = 1, b_data = [104, 101, 108, 108, 111] \<rparr>,
                           \<lparr> b_inode = 4, b_sequence = 1, b_data = [104, 105] \<rparr>],
            inode_seq = 5 \<rparr>"

text \<open>A database with one empty directory \<^verbatim>\<open>/e\<close> (inode 5).\<close>

definition db2 :: db where
  "db2 = \<lparr> tree = [\<lparr> t_inode = 5, t_parent = 1, t_name = ''e'' \<rparr>],
            inodes = [(5, toJSON dir_node)], data_blocks = [], inode_seq = 6 \<rparr>"

text \<open>A \<^verbatim>\<open>setattr\<close> request that changes nothing but the size, to 10 bytes.\<close>

definition grow_request :: SetattrRequest where
  "grow_request = \<lparr> sr_Mode = None, sr_Uid = None, sr_Gid = None, sr_Size = Some 10,
     sr_Atime = None, sr_Mtime = None, sr_Crtime = None \<rparr>"

text \<open>The oracle that fails statement \<open>j\<close> and no other.\<close>

definition fail_at :: "nat \<Rightarrow> nat \<Rightarrow> bool" where
  "fail_at j k = (k = j)"

text \<open>
  A scenario of the specification, run on the model: make the directory \<^verbatim>\<open>/a\<close>, create
  \<^verbatim>\<open>/a/b\<close>, write \<^verbatim>\<open>hello\<close> to it, rename it to \<^verbatim>\<open>/a/c\<close>. The observations are: the
  lookup and the content of \<^verbatim>\<open>/a/b\<close> before the rename, then the lookup of \<^verbatim>\<open>/a/b\<close>, the
  lookup of \<^verbatim>\<open>/a/c\<close> and the content after it.
\<close>

definition hello :: "byte list" where "hello = [104, 101, 108, 108, 111]"

definition scenario :: "((failure + fileNode) \<times> (error + byte list) \<times> (failure + fileNode)
    \<times> (failure + fileNode) \<times> (error + byte list)) option" where
  "scenario =
     (case Mkdir reliable 1 1 db0 Root ''a'' (ModeDir OR 493) of
        (Inl e, d1) \<Rightarrow> None
      | (Inr a, d1) \<Rightarrow>
          (case Create reliable 2 2 d1 a ''b'' 420 of
             (Inl e, d2) \<Rightarrow> None
           | (Inr b, d2) \<Rightarrow>
               (case Write reliable d2 b hello of
                  (Some e, b', d3) \<Rightarrow> None
                | (None, b', d3) \<Rightarrow>
                    (case Rename reliable d3 a ''b'' ''c'' a of
                       (Some e, d4) \<Rightarrow> None
                     | (None, d4) \<Rightarrow>
                         Some (Lookup reliable d3 a ''b'', ReadData reliable d3 (Inode b'),
                               Lookup reliable d4 a ''b'', Lookup reliable d4 a ''c'',
                               ReadData reliable d4 (Inode b'))))))"

section \<open>Properties\<close>

subsection \<open>Helper lemmas: oracles and statements\<close>

lemma concat_split_chunks: "concat (split_chunks input) = input"
proof (induction input rule: split_chunks.induct)
  case (1 input)
  show ?case
  proof (cases "input = []")
    case True
    then show ?thesis by (simp add: split_chunks.simps)
  next
    case False
    with 1 show ?thesis by (subst split_chunks.simps) simp
  qed
qed

lemma write_chunks_shape:
  "write_chunks f inode sequence input blocks = Inr r \<Longrightarrow>
   r = (sequence + int (length (split_chunks input)),
        blocks @ number_chunks inode sequence (split_chunks input))"
proof (induction f inode sequence input blocks rule: write_chunks.induct)
  case (1 f inode sequence input blocks)
  show ?case
  proof (cases "input = []")
    case True
    with "1.prems" show ?thesis
      by (simp add: write_chunks.simps split_chunks.simps)
  next
    case False
    note ne = this
    show ?thesis
    proof (cases "length input > BLOCK_SIZE")
      case True
      from "1.prems" ne True obtain blocks' where
        ins: "exec (f (nat sequence + 1)) (insert_block blocks inode sequence (take BLOCK_SIZE input)) = Inr blocks'"
        and rec: "write_chunks f inode (sequence + 1) (drop BLOCK_SIZE input) blocks' = Inr r"
        by (subst (asm) write_chunks.simps) (auto split: sum.splits)
      from ins have b': "blocks' = blocks @ [\<lparr> b_inode = inode, b_sequence = sequence, b_data = take BLOCK_SIZE input \<rparr>]"
        by (auto simp: exec_def insert_block_def split: if_splits)
      from "1.IH"(1)[OF _ True ins rec] ne
      have "r = (sequence + 1 + int (length (split_chunks (drop BLOCK_SIZE input))),
        blocks' @ number_chunks inode (sequence + 1) (split_chunks (drop BLOCK_SIZE input)))"
        by simp
      with b' ne show ?thesis
        by (subst (1 2) split_chunks.simps) simp
    next
      case False
      from "1.prems" ne False obtain blocks' where
        ins: "exec (f (nat sequence + 1)) (insert_block blocks inode sequence input) = Inr blocks'"
        and rec: "write_chunks f inode (sequence + 1) (take 0 input) blocks' = Inr r"
        by (subst (asm) write_chunks.simps) (auto split: sum.splits)
      from ins have b': "blocks' = blocks @ [\<lparr> b_inode = inode, b_sequence = sequence, b_data = input \<rparr>]"
        by (auto simp: exec_def insert_block_def split: if_splits)
      from rec have "r = (sequence + 1, blocks')"
        by (simp add: write_chunks.simps)
      moreover from False have "take BLOCK_SIZE input = input" "drop BLOCK_SIZE input = []"
        by simp_all
      ultimately show ?thesis using b' ne
        by (subst (1 2) split_chunks.simps) (simp add: split_chunks.simps)
    qed
  qed
qed

lemma write_chunks_reliable:
  "\<forall>k. \<not> f k \<Longrightarrow> \<forall>r \<in> set blocks. b_inode r = inode \<longrightarrow> b_sequence r < sequence \<Longrightarrow>
   \<exists>r. write_chunks f inode sequence input blocks = Inr r"
proof (induction f inode sequence input blocks rule: write_chunks.induct)
  case (1 f inode sequence input blocks)
  have nofail: "\<And>k. f k = False" using "1.prems"(1) by simp
  have fresh: "\<not> (\<exists>r \<in> set blocks. b_inode r = inode \<and> b_sequence r = sequence)"
    using "1.prems"(2) by auto
  show ?case
  proof (cases "input = []")
    case True
    then show ?thesis by (simp add: write_chunks.simps)
  next
    case False
    note ne = this
    show ?thesis
    proof (cases "length input > BLOCK_SIZE")
      case True
      let ?b = "blocks @ [\<lparr> b_inode = inode, b_sequence = sequence, b_data = take BLOCK_SIZE input \<rparr>]"
      have ins: "exec (f (nat sequence + 1)) (insert_block blocks inode sequence (take BLOCK_SIZE input)) = Inr ?b"
        using fresh by (simp add: exec_def insert_block_def nofail)
      have inv: "\<forall>r \<in> set ?b. b_inode r = inode \<longrightarrow> b_sequence r < sequence + 1"
        using "1.prems"(2) by auto
      from "1.IH"(1)[OF _ True ins "1.prems"(1) inv] ne
      obtain r where "write_chunks f inode (sequence + 1) (drop BLOCK_SIZE input) ?b = Inr r"
        by auto
      with ins ne True show ?thesis
        by (subst write_chunks.simps) simp
    next
      case False
      let ?b = "blocks @ [\<lparr> b_inode = inode, b_sequence = sequence, b_data = input \<rparr>]"
      have ins: "exec (f (nat sequence + 1)) (insert_block blocks inode sequence input) = Inr ?b"
        using fresh by (simp add: exec_def insert_block_def nofail)
      with ne False show ?thesis
        by (subst write_chunks.simps) (simp add: write_chunks.simps)
    qed
  qed
qed


lemma reliable_simps [simp]: "\<not> reliable k" "shift j reliable = reliable"
  by (auto simp: reliable_def shift_def fun_eq_iff)

lemma exec_ok [simp]: "exec False r = r"
  by (simp add: exec_def)

lemma exec_Inr: "exec b r = Inr x \<longleftrightarrow> \<not> b \<and> r = Inr x"
  by (simp add: exec_def)

lemma split_chunks_Nil [simp]: "split_chunks [] = []"
  by (simp add: split_chunks.simps)

lemma split_chunks_eq_Nil [simp]: "split_chunks input = [] \<longleftrightarrow> input = []"
  by (subst split_chunks.simps) simp

lemma split_chunks_sizes:
  "x \<in> set (split_chunks input) \<Longrightarrow> 0 < length x \<and> length x \<le> BLOCK_SIZE"
proof (induction input rule: split_chunks.induct)
  case (1 input)
  show ?case
  proof (cases "input = []")
    case True
    with "1.prems" show ?thesis by simp
  next
    case False
    with "1.prems" have "x = take BLOCK_SIZE input \<or> x \<in> set (split_chunks (drop BLOCK_SIZE input))"
      by (subst (asm) split_chunks.simps) simp
    then show ?thesis
    proof
      assume "x = take BLOCK_SIZE input"
      with False show ?thesis by (simp add: BLOCK_SIZE_def)
    next
      assume "x \<in> set (split_chunks (drop BLOCK_SIZE input))"
      with "1.IH" False show ?thesis by simp
    qed
  qed
qed

lemma split_chunks_full:
  "x \<in> set (butlast (split_chunks input)) \<Longrightarrow> length x = BLOCK_SIZE"
proof (induction input rule: split_chunks.induct)
  case (1 input)
  show ?case
  proof (cases "input = []")
    case True
    with "1.prems" show ?thesis by simp
  next
    case False
    note ne = this
    show ?thesis
    proof (cases "drop BLOCK_SIZE input = []")
      case True
      with ne have "split_chunks input = [take BLOCK_SIZE input]"
        by (subst split_chunks.simps) simp
      with "1.prems" show ?thesis by simp
    next
      case False
      with ne have "butlast (split_chunks input) =
          take BLOCK_SIZE input # butlast (split_chunks (drop BLOCK_SIZE input))"
        by (subst split_chunks.simps) simp
      with "1.prems" have "x = take BLOCK_SIZE input \<or> x \<in> set (butlast (split_chunks (drop BLOCK_SIZE input)))"
        by simp
      then show ?thesis
      proof
        assume "x = take BLOCK_SIZE input"
        with False show ?thesis by simp
      next
        assume "x \<in> set (butlast (split_chunks (drop BLOCK_SIZE input)))"
        with "1.IH" ne show ?thesis by simp
      qed
    qed
  qed
qed

lemma number_chunks_data [simp]: "map b_data (number_chunks inode sequence cs) = cs"
  by (induction cs arbitrary: sequence) simp_all

lemma number_chunks_sequence:
  "map b_sequence (number_chunks inode sequence cs) = map (\<lambda>k. sequence + int k) [0..<length cs]"
proof (induction cs arbitrary: sequence)
  case Nil
  show ?case by simp
next
  case (Cons c cs)
  have "map (\<lambda>k. sequence + int k) [0..<length (c # cs)]
      = sequence # map (\<lambda>k. sequence + int k) (map Suc [0..<length cs])"
    by (simp add: upt_conv_Cons map_Suc_upt del: upt_Suc)
  also have "\<dots> = sequence # map (\<lambda>k. sequence + 1 + int k) [0..<length cs]"
    by simp
  finally show ?case using Cons.IH [of "sequence + 1"] by simp
qed

lemma number_chunks_inode: "r \<in> set (number_chunks inode sequence cs) \<Longrightarrow> b_inode r = inode"
  by (induction cs arbitrary: sequence) auto

lemma number_chunks_ge: "r \<in> set (number_chunks inode sequence cs) \<Longrightarrow> sequence \<le> b_sequence r"
  by (induction cs arbitrary: sequence) force+

lemma number_chunks_sorted: "sorted (map b_sequence (number_chunks inode sequence cs))"
proof (induction cs arbitrary: sequence)
  case Nil
  show ?case by simp
next
  case (Cons c cs)
  have "\<forall>r \<in> set (number_chunks inode (sequence + 1) cs). sequence \<le> b_sequence r"
    using number_chunks_ge [of _ inode "sequence + 1" cs] by force
  with Cons.IH [of "sequence + 1"] show ?case by simp
qed

lemma select_blocks_written:
  "select_blocks (delete_blocks blocks inode @ number_chunks inode sequence cs) inode = cs"
proof -
  have "filter (\<lambda>r. b_inode r = inode) (delete_blocks blocks inode @ number_chunks inode sequence cs)
      = number_chunks inode sequence cs"
    by (auto simp: delete_blocks_def filter_empty_conv number_chunks_inode
        intro!: filter_True)
  then show ?thesis
    by (simp add: select_blocks_def sort_key_id_if_sorted number_chunks_sorted)
qed

lemma scan_blocks_reliable:
  "\<forall>k. \<not> f k \<Longrightarrow> scan_blocks f k rows data = Inr (data @ concat rows)"
  by (induction rows arbitrary: k data) simp_all

lemma delete_blocks_fresh:
  "\<forall>r \<in> set (delete_blocks blocks inode). b_inode r = inode \<longrightarrow> b_sequence r < sequence"
  by (simp add: delete_blocks_def)

lemma WriteData_cases:
  "WriteData f d n data = (None, n \<lparr> Size := of_nat (length data) \<rparr>, written d n data)
   \<or> (\<exists>err n'. WriteData f d n data = (Some err, n', d))"
proof (cases "write_chunks f (Inode n) 1 data (delete_blocks (data_blocks d) (Inode n))")
  case (Inl err)
  then show ?thesis
    by (simp add: WriteData_def exec_def)
next
  case (Inr r)
  from write_chunks_shape [OF Inr]
  have "write_chunks f (Inode n) 1 data (delete_blocks (data_blocks d) (Inode n))
      = Inr (1 + int (length (split_chunks data)),
             delete_blocks (data_blocks d) (Inode n) @ number_chunks (Inode n) 1 (split_chunks data))"
    using Inr by simp
  then show ?thesis
    by (simp add: WriteData_def exec_def written_def Let_def)
qed

lemma WriteData_reliable:
  "WriteData reliable d n data = (None, n \<lparr> Size := of_nat (length data) \<rparr>, written d n data)"
proof -
  obtain r where "write_chunks reliable (Inode n) 1 data (delete_blocks (data_blocks d) (Inode n)) = Inr r"
    using write_chunks_reliable [of reliable "delete_blocks (data_blocks d) (Inode n)" "Inode n" 1 data]
      delete_blocks_fresh [of "data_blocks d" "Inode n" 1]
    by auto
  then have "\<not> (\<exists>err n'. WriteData reliable d n data = (Some err, n', d))"
    by (auto simp: WriteData_def Let_def split: prod.splits)
  with WriteData_cases [of reliable d n data] show ?thesis by blast
qed

lemma ReadData_written:
  "ReadData reliable (written d n data) (Inode n) = Inr data"
  by (simp add: ReadData_def written_def select_blocks_written scan_blocks_reliable
      concat_split_chunks)

lemma ReadData_no_blocks:
  "\<forall>r \<in> set (data_blocks d). b_inode r \<noteq> inode \<Longrightarrow> ReadData reliable d inode = Inr []"
proof -
  assume "\<forall>r \<in> set (data_blocks d). b_inode r \<noteq> inode"
  then have "filter (\<lambda>r. b_inode r = inode) (data_blocks d) = []"
    by (simp add: filter_empty_conv)
  then show ?thesis
    by (simp add: ReadData_def select_blocks_def)
qed

lemma split_chunks_1025: "split_chunks (replicate 1025 x) = [replicate 1024 x, [x]]"
  by (simp add: split_chunks.simps BLOCK_SIZE_def)

lemma split_chunks_small: "split_chunks [1,2,3] = [[1,2,3]]"
  by (simp add: split_chunks.simps BLOCK_SIZE_def)


subsection \<open>Claims about the content store\<close>

text \<open>
  Claim C1. For every inode and every byte string \<open>b\<close> (of any length, so also of 0 bytes,
  of exactly one chunk and of one chunk plus one byte), on a store that does not fail,
  \<open>WriteData\<close> succeeds and \<open>ReadData\<close> of the same inode then returns exactly \<open>b\<close>;
  and \<open>ReadData\<close> of an inode without data blocks returns the empty byte string.
\<close>

theorem C1_write_then_read:
  "(case WriteData reliable d n b of
      (err, n', d') \<Rightarrow> err = None \<and> ReadData reliable d' (Inode n) = Inr b)
   \<and> ((\<forall>r \<in> set (data_blocks d). b_inode r \<noteq> i) \<longrightarrow> ReadData reliable d i = Inr [])"
  by (simp add: WriteData_reliable ReadData_written ReadData_no_blocks)

theorem C1_witness:
  "data_blocks db0 = [] \<and> ReadData reliable db0 2 = Inr []
   \<and> fst (WriteData reliable db0 (fileNode0 \<lparr> Inode := 2 \<rparr>) [104, 105]) = None
   \<and> ReadData reliable (snd (snd (WriteData reliable db0 (fileNode0 \<lparr> Inode := 2 \<rparr>) [104, 105]))) 2
       = Inr [104, 105]
   \<and> ReadData reliable (snd (snd (WriteData reliable db1 (file_node \<lparr> Inode := 3 \<rparr>) []))) 3
       = Inr []
   \<and> ReadData reliable
         (snd (snd (WriteData reliable db1 (file_node \<lparr> Inode := 3 \<rparr>) (replicate BLOCK_SIZE 7)))) 3
       = Inr (replicate BLOCK_SIZE 7)
   \<and> ReadData reliable
         (snd (snd (WriteData reliable db1 (file_node \<lparr> Inode := 3 \<rparr>) (replicate (BLOCK_SIZE + 1) 7)))) 3
       = Inr (replicate (BLOCK_SIZE + 1) 7)
   \<and> ReadData reliable
         (snd (snd (WriteData reliable db1 (file_node \<lparr> Inode := 3 \<rparr>) (replicate (3 * BLOCK_SIZE + 7) 7)))) 3
       = Inr (replicate (3 * BLOCK_SIZE + 7) 7)"
  using C1_write_then_read [where d = db0 and n = "fileNode0 \<lparr> Inode := 2 \<rparr>" and b = "[104, 105]" and i = 2]
    C1_write_then_read [where d = db1 and n = "file_node \<lparr> Inode := 3 \<rparr>" and b = "[]" and i = 3]
    C1_write_then_read [where d = db1 and n = "file_node \<lparr> Inode := 3 \<rparr>"
      and b = "replicate BLOCK_SIZE 7" and i = 3]
    C1_write_then_read [where d = db1 and n = "file_node \<lparr> Inode := 3 \<rparr>"
      and b = "replicate (BLOCK_SIZE + 1) 7" and i = 3]
    C1_write_then_read [where d = db1 and n = "file_node \<lparr> Inode := 3 \<rparr>"
      and b = "replicate (3 * BLOCK_SIZE + 7) 7" and i = 3]
  by (auto simp: db0_def fileNode0_def file_node_def split: prod.splits)

lemma map_of_upsert_inode:
  "map_of (upsert_inode rows inode sd) = (map_of rows)(inode \<mapsto> sd)"
  by (induction rows) (auto simp: fun_eq_iff)

lemma select_inode_upsert:
  "select_inode (upsert_inode rows inode sd) inode' =
     (if inode' = inode then Inr sd else select_inode rows inode')"
  by (simp add: select_inode_def map_of_upsert_inode)

lemma number_chunks_from_1:
  "map b_sequence (number_chunks inode 1 cs) = map int [1..<length cs + 1]"
proof -
  have "map int [1..<length cs + 1] = map int (map (\<lambda>k. k + 1) [0..<length cs])"
    by (simp only: map_add_upt)
  also have "\<dots> = map (\<lambda>k. 1 + int k) [0..<length cs]"
    by simp
  finally show ?thesis
    by (simp add: number_chunks_sequence)
qed

lemma unat_Size:
  "length (c :: byte list) < 2 ^ 64 \<Longrightarrow> unat (of_nat (length c) :: uint64) = length c"
  by (simp add: unat_of_nat)

text \<open>
  Claim C7. For every node \<open>n\<close> and content \<open>c\<close>, \<open>WriteData\<close> on a store that does not
  fail commits the database \<open>written d n c\<close>: the data blocks of the inode are deleted and
  replaced by the chunks of \<open>c\<close>, numbered 1, 2, ... in order; the chunks concatenate to
  \<open>c\<close>, every chunk but the last has exactly \<open>BLOCK_SIZE\<close> bytes and the last has between
  1 and \<open>BLOCK_SIZE\<close>; the node row read back holds the size \<open>length c\<close>. Whatever
  statement the store fails, the call either commits exactly this database or returns
  an error and leaves the database as it was.
\<close>

theorem C7_write_replaces_blocks:
  "WriteData reliable d n c = (None, n \<lparr> Size := of_nat (length c) \<rparr>, written d n c)
   \<and> (WriteData f d n c = (None, n \<lparr> Size := of_nat (length c) \<rparr>, written d n c)
       \<or> (\<exists>err n'. WriteData f d n c = (Some err, n', d)))
   \<and> data_blocks (written d n c)
       = filter (\<lambda>r. b_inode r \<noteq> Inode n) (data_blocks d)
           @ number_chunks (Inode n) 1 (split_chunks c)
   \<and> map b_sequence (number_chunks (Inode n) 1 (split_chunks c))
       = map int [1..<length (split_chunks c) + 1]
   \<and> map b_data (number_chunks (Inode n) 1 (split_chunks c)) = split_chunks c
   \<and> concat (split_chunks c) = c
   \<and> (\<forall>x \<in> set (butlast (split_chunks c)). length x = BLOCK_SIZE)
   \<and> (\<forall>x \<in> set (split_chunks c). 0 < length x \<and> length x \<le> BLOCK_SIZE)
   \<and> tree (written d n c) = tree d
   \<and> select_inode (inodes (written d n c)) (Inode n) = Inr (toJSON (n \<lparr> Size := of_nat (length c) \<rparr>))
   \<and> (length c < 2 ^ 64 \<longrightarrow> unat (sd_Size (toJSON (n \<lparr> Size := of_nat (length c) \<rparr>))) = length c)"
proof -
  have "data_blocks (written d n c)
       = filter (\<lambda>r. b_inode r \<noteq> Inode n) (data_blocks d)
           @ number_chunks (Inode n) 1 (split_chunks c)"
    by (simp add: written_def delete_blocks_def)
  moreover have "select_inode (inodes (written d n c)) (Inode n)
      = Inr (toJSON (n \<lparr> Size := of_nat (length c) \<rparr>))"
    by (simp add: written_def select_inode_upsert)
  moreover have "tree (written d n c) = tree d"
    by (simp add: written_def)
  moreover have "length c < 2 ^ 64 \<longrightarrow> unat (sd_Size (toJSON (n \<lparr> Size := of_nat (length c) \<rparr>))) = length c"
    using unat_Size [of c] by (simp add: toJSON_def)
  moreover have "\<forall>x \<in> set (butlast (split_chunks c)). length x = BLOCK_SIZE"
    using split_chunks_full by blast
  moreover have "\<forall>x \<in> set (split_chunks c). 0 < length x \<and> length x \<le> BLOCK_SIZE"
    using split_chunks_sizes by blast
  ultimately show ?thesis
    using WriteData_reliable [of d n c] WriteData_cases [of f d n c]
      number_chunks_from_1 [of "Inode n" "split_chunks c"] concat_split_chunks [of c]
    by (simp only: number_chunks_data simp_thms)
qed

theorem C7_witness:
  "fst (WriteData reliable db1 (file_node \<lparr> Inode := 3 \<rparr>) (replicate 1025 7)) = None
   \<and> data_blocks (snd (snd (WriteData reliable db1 (file_node \<lparr> Inode := 3 \<rparr>) (replicate 1025 7))))
       = [\<lparr> b_inode = 4, b_sequence = 1, b_data = [104, 105] \<rparr>,
          \<lparr> b_inode = 3, b_sequence = 1, b_data = replicate 1024 7 \<rparr>,
          \<lparr> b_inode = 3, b_sequence = 2, b_data = [7] \<rparr>]
   \<and> butlast (split_chunks (replicate 1025 7)) = [replicate 1024 7]
   \<and> length (replicate 1024 (7 :: byte)) = BLOCK_SIZE
   \<and> length (replicate 1025 (7 :: byte)) < 2 ^ 64
   \<and> select_inode (inodes (snd (snd (WriteData reliable db1 (file_node \<lparr> Inode := 3 \<rparr>) (replicate 1025 7))))) 3
       = Inr (toJSON (file_node \<lparr> Size := 1025 \<rparr>))
   \<and> WriteData (fail_at 3) db1 (file_node \<lparr> Inode := 3 \<rparr>) (replicate 1025 7)
       = (Some ErrStore, file_node \<lparr> Inode := 3 \<rparr>, db1)"
  using C7_write_replaces_blocks [where d = db1 and n = "file_node \<lparr> Inode := 3 \<rparr>"
      and c = "replicate 1025 7" and f = "fail_at 3"]
  by (simp add: split_chunks_1025 written_def db1_def file_node_def fileNode0_def toJSON_def
      BLOCK_SIZE_def WriteData_def write_chunks.simps fail_at_def exec_def insert_block_def
      delete_blocks_def)

subsection \<open>Helper lemmas: nodes and the tree\<close>

lemma toJSON_Unmarshal [simp]: "toJSON (Unmarshal sd n) = sd"
  by (simp add: toJSON_def Unmarshal_def)

lemma Unmarshal_fields [simp]:
  "Inode (Unmarshal sd n) = Inode n" "Name (Unmarshal sd n) = Name n" "fs (Unmarshal sd n) = fs n"
  "Nlink (Unmarshal sd n) = sd_Nlink sd" "Size (Unmarshal sd n) = sd_Size sd"
  "Mode (Unmarshal sd n) = sd_Mode sd"
  by (simp_all add: Unmarshal_def)

lemma toJSON_updates [simp]:
  "toJSON (n \<lparr> Inode := i \<rparr>) = toJSON n" "toJSON (n \<lparr> Name := s \<rparr>) = toJSON n"
  "toJSON (n \<lparr> fs := b \<rparr>) = toJSON n"
  "toJSON (n \<lparr> Nlink := k \<rparr>) = (toJSON n) \<lparr> sd_Nlink := k \<rparr>"
  "toJSON (n \<lparr> Size := z \<rparr>) = (toJSON n) \<lparr> sd_Size := z \<rparr>"
  by (simp_all add: toJSON_def)

lemma GetNodeByID_reliable:
  "GetNodeByID reliable d inode =
     (case select_inode (inodes d) inode of
        Inl err \<Rightarrow> Inl err
      | Inr sd \<Rightarrow> Inr (Unmarshal sd (fileNode0 \<lparr> Inode := inode \<rparr>)))"
  by (simp add: GetNodeByID_def)

lemma select_tree_inode_append_new:
  "\<forall>r \<in> set rows. \<not> (t_parent r = parent \<and> t_name r = name) \<Longrightarrow>
   select_tree_inode (rows @ [\<lparr> t_inode = inode, t_parent = parent, t_name = name \<rparr>]) parent name
     = Inr inode"
proof -
  assume "\<forall>r \<in> set rows. \<not> (t_parent r = parent \<and> t_name r = name)"
  then have "filter (\<lambda>r. t_parent r = parent \<and> t_name r = name) rows = []"
    by (simp add: filter_empty_conv)
  then show ?thesis by (simp add: select_tree_inode_def)
qed

lemma insert_tree_new:
  "\<forall>r \<in> set rows. \<not> (t_parent r = parent \<and> t_name r = name) \<Longrightarrow>
   insert_tree rows inode parent name
     = Inr (rows @ [\<lparr> t_inode = inode, t_parent = parent, t_name = name \<rparr>])"
  by (auto simp: insert_tree_def)

lemma insert_tree_taken:
  "\<exists>r \<in> set rows. t_parent r = parent \<and> t_name r = name \<Longrightarrow>
   insert_tree rows inode parent name = Inl ErrUnique"
  by (simp add: insert_tree_def)

lemma UpsertNode_new:
  assumes "\<forall>r \<in> set (tree d). \<not> (t_parent r = parent \<and> t_name r = Name n)"
  shows "UpsertNode reliable now1 now2 d parent n
    = (None, fst (inserted now1 now2 d parent n), snd (inserted now1 now2 d parent n))"
  using assms by (simp add: UpsertNode_def inserted_def Let_def insert_tree_new)

lemma GetNodeByName_inserted:
  assumes "\<forall>r \<in> set (tree d). \<not> (t_parent r = parent \<and> t_name r = Name n)"
  shows "GetNodeByName reliable (snd (inserted now1 now2 d parent n)) parent (Name n)
    = Inr (Unmarshal (toJSON (fst (inserted now1 now2 d parent n))) (fileNode0 \<lparr> Inode := inode_seq d \<rparr>))"
  using assms
  by (simp add: GetNodeByName_def GetNodeByID_reliable inserted_def Let_def
      select_tree_inode_append_new select_inode_upsert)

lemma UpsertNode_taken:
  assumes "\<exists>r \<in> set (tree d). t_parent r = parent \<and> t_name r = Name n"
  shows "\<exists>err n' d'. UpsertNode f now1 now2 d parent n = (Some err, n', d')
           \<and> tree d' = tree d \<and> inodes d' = inodes d \<and> data_blocks d' = data_blocks d"
  using assms by (simp add: UpsertNode_def Let_def insert_tree_taken)

lemma renamed_no_match:
  "\<forall>r \<in> set rows. \<not> (t_name r = oldName \<and> t_parent r = oldParent) \<Longrightarrow>
   renamed rows newName newParent oldName oldParent = rows"
  by (auto simp: renamed_def intro!: map_idI)

lemma renamed_inodes: "map t_inode (renamed rows newName newParent oldName oldParent) = map t_inode rows"
  by (simp add: renamed_def)

lemma update_tree_alt:
  "update_tree rows newName newParent oldName oldParent =
     (if (\<exists>r \<in> set rows. t_name r = oldName \<and> t_parent r = oldParent)
          \<and> length (filter (\<lambda>r. t_name r = newName \<and> t_parent r = newParent)
                (renamed rows newName newParent oldName oldParent)) > 1
      then Inl ErrUnique else Inr (renamed rows newName newParent oldName oldParent))"
  unfolding update_tree_def renamed_def Let_def by (rule refl)

lemma update_tree_cases:
  "update_tree rows newName newParent oldName oldParent = Inl ErrUnique
   \<or> update_tree rows newName newParent oldName oldParent
        = Inr (renamed rows newName newParent oldName oldParent)"
  by (simp add: update_tree_alt)

lemma update_tree_no_match:
  assumes "\<forall>r \<in> set rows. \<not> (t_name r = oldName \<and> t_parent r = oldParent)"
  shows "update_tree rows newName newParent oldName oldParent = Inr rows"
proof -
  have "\<not> (\<exists>r \<in> set rows. t_name r = oldName \<and> t_parent r = oldParent)"
    using assms by blast
  then show ?thesis
    by (simp add: update_tree_alt renamed_no_match [OF assms])
qed

lemma unique_key_filter:
  "distinct (map key rows) \<Longrightarrow> length (filter (\<lambda>r. key r = k) rows) \<le> 1"
proof (induction rows)
  case Nil
  show ?case by simp
next
  case (Cons r rows)
  show ?case
  proof (cases "key r = k")
    case True
    with Cons.prems have "\<forall>x \<in> set rows. key x \<noteq> k" by (auto simp: image_iff)
    then have "filter (\<lambda>r. key r = k) rows = []" by (simp add: filter_empty_conv)
    with True show ?thesis by simp
  next
    case False
    with Cons show ?thesis by simp
  qed
qed

lemma filter_renamed_dest:
  assumes "\<forall>r \<in> set rows. t_name r = newName \<and> t_parent r = newParent
             \<longrightarrow> t_name r = oldName \<and> t_parent r = oldParent"
  shows "length (filter (\<lambda>r. t_name r = newName \<and> t_parent r = newParent)
            (renamed rows newName newParent oldName oldParent))
         = length (filter (\<lambda>r. t_name r = oldName \<and> t_parent r = oldParent) rows)"
  using assms
proof (induction rows)
  case Nil
  show ?case by (simp add: renamed_def)
next
  case (Cons r rows)
  have step: "renamed (r # rows) newName newParent oldName oldParent
      = (if t_name r = oldName \<and> t_parent r = oldParent
         then r \<lparr> t_name := newName, t_parent := newParent \<rparr> else r)
        # renamed rows newName newParent oldName oldParent"
    by (simp add: renamed_def)
  from Cons.prems have r: "t_name r = newName \<and> t_parent r = newParent
      \<longrightarrow> t_name r = oldName \<and> t_parent r = oldParent"
    by simp
  from Cons have IH: "length (filter (\<lambda>r. t_name r = newName \<and> t_parent r = newParent)
            (renamed rows newName newParent oldName oldParent))
         = length (filter (\<lambda>r. t_name r = oldName \<and> t_parent r = oldParent) rows)"
    by simp
  show ?case
  proof (cases "t_name r = oldName \<and> t_parent r = oldParent")
    case True
    with IH show ?thesis by (simp add: step)
  next
    case False
    with r have "\<not> (t_name r = newName \<and> t_parent r = newParent)" by blast
    with False IH show ?thesis by (simp add: step)
  qed
qed

lemma update_tree_free:
  assumes "tree_unique rows"
    and "\<forall>r \<in> set rows. t_name r = newName \<and> t_parent r = newParent
             \<longrightarrow> t_name r = oldName \<and> t_parent r = oldParent"
  shows "update_tree rows newName newParent oldName oldParent
           = Inr (renamed rows newName newParent oldName oldParent)"
proof -
  have "length (filter (\<lambda>r. (t_name r, t_parent r) = (oldName, oldParent)) rows) \<le> 1"
    using assms(1) unfolding tree_unique_def by (rule unique_key_filter)
  then have "length (filter (\<lambda>r. t_name r = oldName \<and> t_parent r = oldParent) rows) \<le> 1"
    by simp
  with filter_renamed_dest [OF assms(2)]
  have "\<not> length (filter (\<lambda>r. t_name r = newName \<and> t_parent r = newParent)
            (renamed rows newName newParent oldName oldParent)) > 1"
    by simp
  then show ?thesis
    by (simp only: update_tree_alt simp_thms if_False)
qed

lemma two_in_filter:
  assumes "x \<in> set xs" "y \<in> set xs" "x \<noteq> y" "P x" "P y"
  shows "1 < length (filter P xs)"
proof -
  have "{x, y} \<subseteq> set (filter P xs)" using assms by simp
  then have "card {x, y} \<le> card (set (filter P xs))" by (intro card_mono) simp_all
  also have "\<dots> \<le> length (filter P xs)" by (rule card_length)
  finally show ?thesis using assms(3) by simp
qed

lemma filter_renamed_count:
  "length (filter (\<lambda>r. t_name r = newName \<and> t_parent r = newParent)
            (renamed rows newName newParent oldName oldParent))
   = length (filter (\<lambda>r. (t_name r = oldName \<and> t_parent r = oldParent)
                        \<or> (t_name r = newName \<and> t_parent r = newParent)) rows)"
proof (induction rows)
  case Nil
  show ?case by (simp add: renamed_def)
next
  case (Cons r rows)
  have step: "renamed (r # rows) newName newParent oldName oldParent
      = (if t_name r = oldName \<and> t_parent r = oldParent
         then r \<lparr> t_name := newName, t_parent := newParent \<rparr> else r)
        # renamed rows newName newParent oldName oldParent"
    by (simp add: renamed_def)
  show ?case
  proof (cases "t_name r = oldName \<and> t_parent r = oldParent")
    case True
    with Cons.IH show ?thesis by (simp add: step)
  next
    case False
    with Cons.IH show ?thesis by (auto simp: step)
  qed
qed

lemma update_tree_taken:
  assumes "r1 \<in> set rows" "t_name r1 = oldName \<and> t_parent r1 = oldParent"
    and "r2 \<in> set rows" "t_name r2 = newName \<and> t_parent r2 = newParent"
    and "\<not> (t_name r2 = oldName \<and> t_parent r2 = oldParent)"
  shows "update_tree rows newName newParent oldName oldParent = Inl ErrUnique"
proof -
  have ne: "r1 \<noteq> r2" using assms(2,5) by blast
  have "1 < length (filter (\<lambda>r. (t_name r = oldName \<and> t_parent r = oldParent)
                        \<or> (t_name r = newName \<and> t_parent r = newParent)) rows)"
    using assms(1) assms(3) ne
  proof (rule two_in_filter)
    show "(t_name r1 = oldName \<and> t_parent r1 = oldParent)
        \<or> (t_name r1 = newName \<and> t_parent r1 = newParent)" using assms(2) by blast
    show "(t_name r2 = oldName \<and> t_parent r2 = oldParent)
        \<or> (t_name r2 = newName \<and> t_parent r2 = newParent)" using assms(4) by blast
  qed
  then have "1 < length (filter (\<lambda>r. t_name r = newName \<and> t_parent r = newParent)
            (renamed rows newName newParent oldName oldParent))"
    by (simp only: filter_renamed_count)
  moreover have "\<exists>r \<in> set rows. t_name r = oldName \<and> t_parent r = oldParent"
    using assms(1,2) by blast
  ultimately show ?thesis
    by (simp only: update_tree_alt simp_thms if_True)
qed

lemma Attr_Inode: "fs n \<Longrightarrow> \<exists>attr. Attr f d n = Inr attr \<and> a_Inode attr = Inode n"
  by (simp add: Attr_def)

lemma Rename_unfold:
  assumes "fs n" "fs newDir"
  shows "Rename f d n oldName newName newDir =
     (case exec (f 1) (update_tree (tree d) newName (Inode newDir) oldName (Inode n)) of
        Inl err \<Rightarrow> (Some (Errno EIO), d)
      | Inr tree' \<Rightarrow> (None, d \<lparr> tree := tree' \<rparr>))"
  using assms
  by (simp add: Rename_def Attr_def RenameNode_def shift_def split: sum.splits)


subsection \<open>Claims about the tree resolver\<close>

text \<open>
  Claim C8. For every directory \<open>D\<close> and every node \<open>n\<close> whose name is not present in
  \<open>D\<close>, on a store that does not fail, \<open>UpsertNode\<close> succeeds and allocates the inode
  number \<open>inode_seq d\<close>, and \<open>GetNodeByName\<close> of \<open>D\<close> and that name in the resulting
  database returns a node with the same inode number (and the metadata just stored).
\<close>

theorem C8_insert_then_resolve:
  assumes "\<forall>r \<in> set (tree d). \<not> (t_parent r = D \<and> t_name r = Name n)"
  shows "case UpsertNode reliable now1 now2 d D n of
           (err, n', d') \<Rightarrow>
             err = None \<and> Inode n' = inode_seq d
             \<and> GetNodeByName reliable d' D (Name n)
                 = Inr (Unmarshal (toJSON n') (fileNode0 \<lparr> Inode := Inode n' \<rparr>))
             \<and> (case GetNodeByName reliable d' D (Name n) of
                   Inr m \<Rightarrow> Inode m = Inode n' | Inl err \<Rightarrow> False)"
  using assms GetNodeByName_inserted [OF assms, of now1 now2]
  by (simp add: UpsertNode_new) (simp add: inserted_def Let_def)

theorem C8_witness:
  "select_tree_inode (tree db1) 1 ''new'' = Inl ErrNoRows
   \<and> UpsertNode reliable 10 11 db1 1 (fileNode0 \<lparr> Name := ''new'', Mode := 420, Nlink := 1 \<rparr>)
       = (None, fileNode0 \<lparr> Name := ''new'', Mode := 420, Nlink := 1, Mtime := 10, Ctime := 11, Inode := 5 \<rparr>,
          snd (inserted 10 11 db1 1 (fileNode0 \<lparr> Name := ''new'', Mode := 420, Nlink := 1 \<rparr>)))
   \<and> GetNodeByName reliable
         (snd (inserted 10 11 db1 1 (fileNode0 \<lparr> Name := ''new'', Mode := 420, Nlink := 1 \<rparr>))) 1 ''new''
       = Inr (fileNode0 \<lparr> Mode := 420, Nlink := 1, Mtime := 10, Ctime := 11, Inode := 5 \<rparr>)"
  using C8_insert_then_resolve [where d = db1 and D = 1
      and n = "fileNode0 \<lparr> Name := ''new'', Mode := 420, Nlink := 1 \<rparr>" and ?now1.0 = 10 and ?now2.0 = 11]
  by (simp add: db1_def select_tree_inode_def UpsertNode_def insert_tree_def inserted_def
      fileNode0_def Unmarshal_def toJSON_def split: prod.splits)


text \<open>
  Claim C4, as amended. For every parent \<open>p\<close> and name \<open>N\<close> already present under \<open>p\<close>,
  \<open>Create\<close> neither succeeds nor overwrites: whatever the store does, it returns the
  generic I/O error \<open>EIO\<close> (never \<open>EEXIST\<close>), and the tree entries, the node rows and
  the data blocks are those from before the call.
\<close>

theorem C4_duplicate_name_is_EIO:
  assumes "\<exists>r \<in> set (tree d). t_parent r = Inode p \<and> t_name r = N"
  shows "case Create f now1 now2 d p N mode of
           (res, d') \<Rightarrow>
             res = Inl (Errno EIO) \<and> res \<noteq> Inl (Errno EEXIST)
             \<and> tree d' = tree d \<and> inodes d' = inodes d \<and> data_blocks d' = data_blocks d"
proof (cases "fs p")
  case False
  then show ?thesis by (simp add: Create_def)
next
  case True
  let ?n = "fileNode0 \<lparr> fs := fs p, Name := N, Mode := mode, Nlink := 1 \<rparr>"
  from assms have "\<exists>r \<in> set (tree d). t_parent r = Inode p \<and> t_name r = Name ?n"
    by simp
  from UpsertNode_taken [OF this, of f now1 now2]
  obtain err n' d' where "UpsertNode f now1 now2 d (Inode p) ?n = (Some err, n', d')"
    and "tree d' = tree d" "inodes d' = inodes d" "data_blocks d' = data_blocks d"
    by blast
  with True show ?thesis by (simp add: Create_def)
qed

theorem C4_witness:
  "select_tree_inode (tree db1) (Inode Root) ''a'' = Inr 2
   \<and> Create reliable 10 11 db1 Root ''a'' 420 = (Inl (Errno EIO), db1 \<lparr> inode_seq := 6 \<rparr>)"
  using C4_duplicate_name_is_EIO [where d = db1 and p = Root and N = "''a''" and f = reliable
      and mode = 420 and ?now1.0 = 10 and ?now2.0 = 11]
  by (simp add: db1_def Root_def fileNode0_def rootInode_def select_tree_inode_def
      Create_def UpsertNode_def insert_tree_def)

text \<open>
  Claim C4 as stated fails: the duplicate insert is not reported by a code of its own.
  Creating \<^verbatim>\<open>/a\<close> a second time returns \<open>EIO\<close>, the code of every other store failure.
\<close>

theorem C4_counterexample:
  "select_tree_inode (tree db1) (Inode Root) ''a'' = Inr 2
   \<and> fst (Create reliable 10 11 db1 Root ''a'' 420) = Inl (Errno EIO)
   \<and> fst (Create reliable 10 11 db1 Root ''a'' 420) \<noteq> Inl (Errno EEXIST)"
  by (simp add: db1_def Root_def fileNode0_def rootInode_def select_tree_inode_def
      Create_def UpsertNode_def insert_tree_def)


text \<open>
  Claim C10, as amended. For every database, names and directories (the receiver and
  the new directory being nodes of the mounted filesystem, \<open>fs\<close> set):
  when no tree entry \<open>(oldParent, oldName)\<close> exists, \<open>Rename\<close> returns success and the
  database is unchanged; whatever the store does, \<open>Rename\<close> leaves the node rows, the data
  blocks, the sequence and the inode column of every tree row untouched, and the tree is
  either unchanged (with \<open>EIO\<close>) or the table \<open>renamed\<close>, in which only the parent and
  the name of the entry differ; when the destination name is free (or is the source
  itself) in a table that satisfies the uniqueness constraint, the rename succeeds with
  exactly that table; and when the entry exists and another entry holds the destination
  name, the rename fails with \<open>EIO\<close> and the database is unchanged.
\<close>

theorem C10_rename:
  assumes "fs n" and "fs newDir"
  shows "((\<forall>r \<in> set (tree d). \<not> (t_name r = oldName \<and> t_parent r = Inode n))
            \<longrightarrow> Rename reliable d n oldName newName newDir = (None, d))
   \<and> (case Rename f d n oldName newName newDir of
         (err, d') \<Rightarrow>
           inodes d' = inodes d \<and> data_blocks d' = data_blocks d \<and> inode_seq d' = inode_seq d
           \<and> map t_inode (tree d') = map t_inode (tree d)
           \<and> ((err = Some (Errno EIO) \<and> tree d' = tree d)
              \<or> (err = None \<and> tree d' = renamed (tree d) newName (Inode newDir) oldName (Inode n))))
   \<and> (tree_unique (tree d)
        \<and> (\<forall>r \<in> set (tree d). t_name r = newName \<and> t_parent r = Inode newDir
              \<longrightarrow> t_name r = oldName \<and> t_parent r = Inode n)
        \<longrightarrow> Rename reliable d n oldName newName newDir
              = (None, d \<lparr> tree := renamed (tree d) newName (Inode newDir) oldName (Inode n) \<rparr>))
   \<and> ((\<exists>r \<in> set (tree d). t_name r = oldName \<and> t_parent r = Inode n)
        \<and> (\<exists>r \<in> set (tree d). t_name r = newName \<and> t_parent r = Inode newDir
               \<and> \<not> (t_name r = oldName \<and> t_parent r = Inode n))
        \<longrightarrow> Rename f d n oldName newName newDir = (Some (Errno EIO), d))"
proof (intro conjI impI)
  assume "\<forall>r \<in> set (tree d). \<not> (t_name r = oldName \<and> t_parent r = Inode n)"
  then show "Rename reliable d n oldName newName newDir = (None, d)"
    by (simp add: Rename_unfold [OF assms] update_tree_no_match)
next
  show "case Rename f d n oldName newName newDir of
         (err, d') \<Rightarrow>
           inodes d' = inodes d \<and> data_blocks d' = data_blocks d \<and> inode_seq d' = inode_seq d
           \<and> map t_inode (tree d') = map t_inode (tree d)
           \<and> ((err = Some (Errno EIO) \<and> tree d' = tree d)
              \<or> (err = None \<and> tree d' = renamed (tree d) newName (Inode newDir) oldName (Inode n)))"
    using update_tree_cases [of "tree d" newName "Inode newDir" oldName "Inode n"]
    by (auto simp: Rename_unfold [OF assms] exec_def renamed_inodes)
next
  assume "tree_unique (tree d)
        \<and> (\<forall>r \<in> set (tree d). t_name r = newName \<and> t_parent r = Inode newDir
              \<longrightarrow> t_name r = oldName \<and> t_parent r = Inode n)"
  then show "Rename reliable d n oldName newName newDir
              = (None, d \<lparr> tree := renamed (tree d) newName (Inode newDir) oldName (Inode n) \<rparr>)"
    by (simp add: Rename_unfold [OF assms] update_tree_free)
next
  assume a: "(\<exists>r \<in> set (tree d). t_name r = oldName \<and> t_parent r = Inode n)
        \<and> (\<exists>r \<in> set (tree d). t_name r = newName \<and> t_parent r = Inode newDir
               \<and> \<not> (t_name r = oldName \<and> t_parent r = Inode n))"
  then obtain r1 r2 where "r1 \<in> set (tree d)" "t_name r1 = oldName \<and> t_parent r1 = Inode n"
    "r2 \<in> set (tree d)" "t_name r2 = newName \<and> t_parent r2 = Inode newDir"
    "\<not> (t_name r2 = oldName \<and> t_parent r2 = Inode n)"
    by blast
  then have "update_tree (tree d) newName (Inode newDir) oldName (Inode n) = Inl ErrUnique"
    by (rule update_tree_taken)
  then show "Rename f d n oldName newName newDir = (Some (Errno EIO), d)"
    by (simp add: Rename_unfold [OF assms] exec_def)
qed

theorem C10_witness:
  "fs Root \<and> fs (dir_node \<lparr> Inode := 2, fs := True \<rparr>)
   \<and> select_tree_inode (tree db1) (Inode Root) ''zz'' = Inl ErrNoRows
   \<and> Rename reliable db1 Root ''zz'' ''d'' (dir_node \<lparr> Inode := 2, fs := True \<rparr>) = (None, db1)
   \<and> tree_unique (tree db1)
   \<and> select_tree_inode (tree db1) 2 ''d'' = Inl ErrNoRows
   \<and> Rename reliable db1 Root ''c'' ''d'' (dir_node \<lparr> Inode := 2, fs := True \<rparr>)
       = (None, db1 \<lparr> tree := [\<lparr> t_inode = 2, t_parent = 1, t_name = ''a'' \<rparr>,
                                \<lparr> t_inode = 3, t_parent = 2, t_name = ''b'' \<rparr>,
                                \<lparr> t_inode = 3, t_parent = 2, t_name = ''d'' \<rparr>,
                                \<lparr> t_inode = 4, t_parent = 1, t_name = ''f'' \<rparr>] \<rparr>)
   \<and> select_tree_inode (tree db1) (Inode Root) ''c'' = Inr 3
   \<and> select_tree_inode (tree db1) (Inode Root) ''a'' = Inr 2
   \<and> Rename reliable db1 Root ''c'' ''a'' Root = (Some (Errno EIO), db1)"
  using C10_rename [where d = db1 and n = Root and newDir = "dir_node \<lparr> Inode := 2, fs := True \<rparr>"
      and oldName = "''zz''" and newName = "''d''" and f = reliable]
    C10_rename [where d = db1 and n = Root and newDir = "dir_node \<lparr> Inode := 2, fs := True \<rparr>"
      and oldName = "''c''" and newName = "''d''" and f = reliable]
    C10_rename [where d = db1 and n = Root and newDir = Root
      and oldName = "''c''" and newName = "''a''" and f = reliable]
  by (simp add: db1_def Root_def dir_node_def fileNode0_def rootInode_def select_tree_inode_def
      tree_unique_def renamed_def)

text \<open>
  Claim C10 as stated fails: \<open>Rename\<close> does not return success for every state and every
  pair of names. Renaming \<^verbatim>\<open>/c\<close> to \<^verbatim>\<open>/f\<close>, a name that another entry holds, is refused
  by the uniqueness constraint and comes back as \<open>EIO\<close>.
\<close>

theorem C10_counterexample:
  "select_tree_inode (tree db1) (Inode Root) ''c'' = Inr 3
   \<and> select_tree_inode (tree db1) (Inode Root) ''f'' = Inr 4
   \<and> Rename reliable db1 Root ''c'' ''f'' Root = (Some (Errno EIO), db1)
   \<and> fst (Rename reliable db1 Root ''c'' ''f'' Root) \<noteq> None"
  by (simp add: db1_def Root_def fileNode0_def rootInode_def select_tree_inode_def
      Rename_def Attr_def RenameNode_def update_tree_def)


subsection \<open>Helper lemmas: removing and linking\<close>

lemma select_tree_inode_Inr:
  "select_tree_inode rows parent name = Inr inode \<Longrightarrow>
   \<exists>r \<in> set rows. t_parent r = parent \<and> t_name r = name \<and> t_inode r = inode"
proof -
  assume a: "select_tree_inode rows parent name = Inr inode"
  then obtain r rs where f: "filter (\<lambda>r. t_parent r = parent \<and> t_name r = name) rows = r # rs"
    and i: "t_inode r = inode"
    by (auto simp: select_tree_inode_def split: list.splits)
  from f have "r \<in> set (filter (\<lambda>r. t_parent r = parent \<and> t_name r = name) rows)"
    by simp
  with i show ?thesis by auto
qed

lemma last_reference:
  assumes "select_tree_inode rows parent name = Inr inode"
    and "count_tree_inode rows inode = 1"
  shows "count_tree_inode (delete_tree rows parent name) inode = 0"
proof -
  from select_tree_inode_Inr [OF assms(1)] obtain r where
    r: "r \<in> set rows" "t_parent r = parent" "t_name r = name" "t_inode r = inode"
    by blast
  from assms(2) obtain x where x: "filter (\<lambda>r. t_inode r = inode) rows = [x]"
    by (auto simp: count_tree_inode_def length_Suc_conv)
  from r have "r \<in> set (filter (\<lambda>r. t_inode r = inode) rows)" by simp
  with x have "x = r" by simp
  have "filter (\<lambda>r. t_inode r = inode) (delete_tree rows parent name)
      = filter (\<lambda>r. \<not> (t_parent r = parent \<and> t_name r = name)) (filter (\<lambda>r. t_inode r = inode) rows)"
    by (simp add: delete_tree_def conj_commute)
  also have "\<dots> = []" using x \<open>x = r\<close> r by simp
  finally show ?thesis by (simp add: count_tree_inode_def)
qed

lemma other_reference:
  assumes "r \<in> set rows" "t_inode r = inode" "\<not> (t_parent r = parent \<and> t_name r = name)"
  shows "count_tree_inode (delete_tree rows parent name) inode > 0"
proof -
  from assms have "r \<in> set (filter (\<lambda>r. t_inode r = inode) (delete_tree rows parent name))"
    by (simp add: delete_tree_def)
  then show ?thesis
    unfolding count_tree_inode_def by (rule length_pos_if_in_set)
qed

lemma RemoveNodeByName_last:
  assumes "count_tree_inode (delete_tree (tree d) parent name) inode = 0"
  shows "RemoveNodeByName f d parent name inode = (None, removed d parent name inode, None)
     \<or> (\<exists>err. RemoveNodeByName f d parent name inode = (Some err, d, None))"
    and "RemoveNodeByName reliable d parent name inode = (None, removed d parent name inode, None)"
  using assms
  by (simp_all add: RemoveNodeByName_def exec_def removed_def delete_tree_def delete_inode_def
      delete_blocks_def)

lemma GetNodeByName_cases:
  assumes "select_tree_inode (tree d) parent name = Inr inode"
    and "select_inode (inodes d) inode = Inr sd"
  shows "GetNodeByName f d parent name = Inr (Unmarshal sd (fileNode0 \<lparr> Inode := inode \<rparr>))
     \<or> (\<exists>err. GetNodeByName f d parent name = Inl err)"
    and "GetNodeByName reliable d parent name = Inr (Unmarshal sd (fileNode0 \<lparr> Inode := inode \<rparr>))"
  using assms by (simp_all add: GetNodeByName_def GetNodeByID_def exec_def)

lemma CreateLink_new:
  assumes "\<forall>r \<in> set (tree d). \<not> (t_parent r = parent \<and> t_name r = Name n)"
    and "select_inode (inodes d) (Inode n) = Inr sd"
  shows "CreateLink f d parent n = (None, linked d parent (Name n) (Inode n) sd)
     \<or> (\<exists>err. CreateLink f d parent n = (Some err, d))"
    and "CreateLink reliable d parent n = (None, linked d parent (Name n) (Inode n) sd)"
  using assms
  by (simp_all add: CreateLink_def GetNodeByID_def exec_def shift_def insert_tree_new linked_def)

lemma GetNodeByID_linked:
  "GetNodeByID f (linked d parent name inode sd) inode
     = Inr (Unmarshal (sd \<lparr> sd_Nlink := sd_Nlink sd + 1 \<rparr>) (fileNode0 \<lparr> Inode := inode \<rparr>))
   \<or> (\<exists>err. GetNodeByID f (linked d parent name inode sd) inode = Inl err)"
  by (simp add: GetNodeByID_def exec_def linked_def select_inode_upsert)


lemma Remove_last_entry:
  assumes "fs n"
    and "select_tree_inode (tree d) (Inode n) (rr_Name req) = Inr I"
    and "select_inode (inodes d) I = Inr sd"
    and "count_tree_inode (tree d) I = 1"
    and "rr_Dir req \<longrightarrow> count_tree_parent (tree d) I = 0"
  shows "Remove reliable d n req = (None, removed d (Inode n) (rr_Name req) I, None)
   \<and> (Remove f d n req = (None, removed d (Inode n) (rr_Name req) I, None)
       \<or> Remove f d n req = (Some (Errno EIO), d, None))
   \<and> select_tree_inode (tree (removed d (Inode n) (rr_Name req) I)) (Inode n) (rr_Name req) = Inl ErrNoRows
   \<and> count_tree_inode (tree (removed d (Inode n) (rr_Name req) I)) I = 0
   \<and> select_inode (inodes (removed d (Inode n) (rr_Name req) I)) I = Inl ErrNoRows
   \<and> select_blocks (data_blocks (removed d (Inode n) (rr_Name req) I)) I = []"
proof -
  let ?node = "Unmarshal sd (fileNode0 \<lparr> Inode := I \<rparr>)"
  have last: "count_tree_inode (delete_tree (tree d) (Inode n) (rr_Name req)) I = 0"
    using assms(2,4) by (rule last_reference)
  have ino: "Inode ?node = I" by simp
  have rel: "Remove reliable d n req = (None, removed d (Inode n) (rr_Name req) I, None)"
    using assms(1,5) GetNodeByName_cases(2) [OF assms(2,3)] RemoveNodeByName_last(2) [OF last]
    by (simp add: Remove_def CountNodesInDir_def)
  have any: "Remove f d n req = (None, removed d (Inode n) (rr_Name req) I, None)
       \<or> Remove f d n req = (Some (Errno EIO), d, None)"
  proof (cases "GetNodeByName f d (Inode n) (rr_Name req)")
    case (Inl err)
    with assms(1) show ?thesis by (simp add: Remove_def)
  next
    case (Inr toRemove)
    with GetNodeByName_cases(1) [OF assms(2,3), of f] have tr: "toRemove = ?node" by simp
    show ?thesis
      using assms(1,5) Inr tr RemoveNodeByName_last(1) [OF last, of "shift 3 f"]
      by (auto simp: Remove_def CountNodesInDir_def exec_def)
  qed
  have t: "select_tree_inode (tree (removed d (Inode n) (rr_Name req) I)) (Inode n) (rr_Name req) = Inl ErrNoRows"
    by (simp add: removed_def select_tree_inode_def)
  have c: "count_tree_inode (tree (removed d (Inode n) (rr_Name req) I)) I = 0"
    using last by (simp add: removed_def delete_tree_def)
  have "map_of (filter (\<lambda>r. fst r \<noteq> I) (inodes d)) I = None"
    by (simp add: map_of_eq_None_iff image_iff)
  then have i: "select_inode (inodes (removed d (Inode n) (rr_Name req) I)) I = Inl ErrNoRows"
    by (simp add: removed_def select_inode_def)
  have b: "select_blocks (data_blocks (removed d (Inode n) (rr_Name req) I)) I = []"
    by (simp add: removed_def select_blocks_def)
  from rel any t c i b show ?thesis by blast
qed






subsection \<open>Claims about removing\<close>

text \<open>
  Claim C6. For every inode \<open>I\<close> referenced by exactly one tree entry, the entry
  \<open>(P, N)\<close>, \<open>RemoveNodeByName\<close> on a store that does not fail commits the database
  \<open>removed\<close>: the tree entry deleted, and with it the node row of \<open>I\<close> and all data
  blocks of \<open>I\<close>. The three deletes are one transaction: whatever statement the store
  fails, the result is either exactly this database or an error with the database
  unchanged. The same holds of \<open>Remove\<close>, which reaches \<open>RemoveNodeByName\<close> when the node
  row of \<open>I\<close> can be read and, for a directory removal, \<open>I\<close> has no child entries.
\<close>

theorem C6_remove_last_entry:
  assumes "select_tree_inode (tree d) P N = Inr I"
    and "count_tree_inode (tree d) I = 1"
  shows "RemoveNodeByName reliable d P N I = (None, removed d P N I, None)
   \<and> (RemoveNodeByName f d P N I = (None, removed d P N I, None)
       \<or> (\<exists>err. RemoveNodeByName f d P N I = (Some err, d, None)))
   \<and> (fs n \<and> Inode n = P \<and> rr_Name req = N \<and> select_inode (inodes d) I = Inr sd
        \<and> (rr_Dir req \<longrightarrow> count_tree_parent (tree d) I = 0)
        \<longrightarrow> Remove reliable d n req = (None, removed d P N I, None)
            \<and> (Remove f d n req = (None, removed d P N I, None)
                \<or> Remove f d n req = (Some (Errno EIO), d, None)))
   \<and> select_tree_inode (tree (removed d P N I)) P N = Inl ErrNoRows
   \<and> count_tree_inode (tree (removed d P N I)) I = 0
   \<and> select_inode (inodes (removed d P N I)) I = Inl ErrNoRows
   \<and> select_blocks (data_blocks (removed d P N I)) I = []"
proof -
  have last: "count_tree_inode (delete_tree (tree d) P N) I = 0"
    using assms by (rule last_reference)
  have t: "select_tree_inode (tree (removed d P N I)) P N = Inl ErrNoRows"
    by (simp add: removed_def select_tree_inode_def)
  have c: "count_tree_inode (tree (removed d P N I)) I = 0"
    using last by (simp add: removed_def delete_tree_def)
  have "map_of (filter (\<lambda>r. fst r \<noteq> I) (inodes d)) I = None"
    by (simp add: map_of_eq_None_iff image_iff)
  then have i: "select_inode (inodes (removed d P N I)) I = Inl ErrNoRows"
    by (simp add: removed_def select_inode_def)
  have b: "select_blocks (data_blocks (removed d P N I)) I = []"
    by (simp add: removed_def select_blocks_def)
  have r: "fs n \<and> Inode n = P \<and> rr_Name req = N \<and> select_inode (inodes d) I = Inr sd
        \<and> (rr_Dir req \<longrightarrow> count_tree_parent (tree d) I = 0)
        \<longrightarrow> Remove reliable d n req = (None, removed d P N I, None)
            \<and> (Remove f d n req = (None, removed d P N I, None)
                \<or> Remove f d n req = (Some (Errno EIO), d, None))"
    using assms Remove_last_entry [where n = n and d = d and req = req and I = I and sd = sd and f = f]
    by blast
  from RemoveNodeByName_last(1) [OF last, where f = f] RemoveNodeByName_last(2) [OF last] r t c i b
  show ?thesis by blast
qed

theorem C6_witness:
  "fs Root
   \<and> select_tree_inode (tree db1) (Inode Root) ''f'' = Inr 4
   \<and> select_inode (inodes db1) 4 = Inr (toJSON single_node)
   \<and> count_tree_inode (tree db1) 4 = 1
   \<and> RemoveNodeByName reliable db1 1 ''f'' 4 = (None, removed db1 1 ''f'' 4, None)
   \<and> Remove reliable db1 Root \<lparr> rr_Name = ''f'', rr_Dir = False \<rparr>
       = (None,
          db1 \<lparr> tree := [\<lparr> t_inode = 2, t_parent = 1, t_name = ''a'' \<rparr>,
                          \<lparr> t_inode = 3, t_parent = 2, t_name = ''b'' \<rparr>,
                          \<lparr> t_inode = 3, t_parent = 1, t_name = ''c'' \<rparr>],
                inodes := [(2, toJSON dir_node), (3, toJSON file_node)],
                data_blocks := [\<lparr> b_inode = 3, b_sequence = 1, b_data = [104, 101, 108, 108, 111] \<rparr>] \<rparr>,
          None)
   \<and> count_tree_inode (tree db2) 5 = 1 \<and> count_tree_parent (tree db2) 5 = 0
   \<and> Remove reliable db2 Root \<lparr> rr_Name = ''e'', rr_Dir = True \<rparr>
       = (None, db2 \<lparr> tree := [], inodes := [] \<rparr>, None)"
  using C6_remove_last_entry [where d = db1 and n = Root and I = 4 and sd = "toJSON single_node"
      and P = 1 and N = "''f''" and req = "\<lparr> rr_Name = ''f'', rr_Dir = False \<rparr>" and f = reliable]
    C6_remove_last_entry [where d = db2 and n = Root and I = 5 and sd = "toJSON dir_node"
      and P = 1 and N = "''e''" and req = "\<lparr> rr_Name = ''e'', rr_Dir = True \<rparr>" and f = reliable]
  by (simp add: db1_def db2_def Root_def fileNode0_def rootInode_def select_tree_inode_def
      select_inode_def count_tree_inode_def count_tree_parent_def removed_def)




text \<open>
  Claim C2, evaluated where the program departs from it. Inode 3 of \<open>db1\<close> has the two
  names \<^verbatim>\<open>/a/b\<close> and \<^verbatim>\<open>/c\<close> and the stored link count 2. Removing \<^verbatim>\<open>/c\<close> returns
  success, but the committed database is \<open>db1\<close> itself: the delete of the tree entry
  stays in the transaction that \<open>RemoveNodeByName\<close> leaves open, and the stored link
  count is 2 in the committed database and in that transaction alike.
\<close>

theorem C2_remove_hard_link_keeps_count:
  "count_tree_inode (tree db1) 3 = 2
   \<and> select_inode (inodes db1) 3 = Inr (toJSON file_node)
   \<and> sd_Nlink (toJSON file_node) = 2
   \<and> Remove reliable db1 Root \<lparr> rr_Name = ''c'', rr_Dir = False \<rparr>
       = (None, db1,
          Some (db1 \<lparr> tree := [\<lparr> t_inode = 2, t_parent = 1, t_name = ''a'' \<rparr>,
                                \<lparr> t_inode = 3, t_parent = 2, t_name = ''b'' \<rparr>,
                                \<lparr> t_inode = 4, t_parent = 1, t_name = ''f'' \<rparr>] \<rparr>))
   \<and> RemoveNodeByName reliable db1 1 ''c'' 3
       = (None, db1,
          Some (db1 \<lparr> tree := [\<lparr> t_inode = 2, t_parent = 1, t_name = ''a'' \<rparr>,
                                \<lparr> t_inode = 3, t_parent = 2, t_name = ''b'' \<rparr>,
                                \<lparr> t_inode = 4, t_parent = 1, t_name = ''f'' \<rparr>] \<rparr>))
   \<and> select_tree_inode (tree db1) (Inode Root) ''c'' = Inr 3"
  by (simp add: db1_def Root_def fileNode0_def rootInode_def select_tree_inode_def
      select_inode_def count_tree_inode_def file_node_def toJSON_def Remove_def
      GetNodeByName_def GetNodeByID_def RemoveNodeByName_def delete_tree_def Unmarshal_def)


subsection \<open>Claims about linking\<close>

text \<open>
  Claim C3, as amended. For every parent directory \<open>n\<close>, name \<open>N\<close> not present under it
  and existing inode (the node \<open>old\<close>, of any type, with the node row \<open>sd\<close>), \<open>Link\<close> on a
  store that does not fail commits the database \<open>linked\<close>: a new tree entry \<open>(n, N)\<close> that
  points at the inode, and the stored link count incremented by one (in \<^verbatim>\<open>uint32\<close>
  arithmetic, so by exactly one below \<open>2 ^ 32 - 1\<close>); the data blocks are untouched. Both
  updates are one transaction: whatever statement the store fails, the database
  afterwards is either \<open>linked\<close> or the one before the call.
\<close>

theorem C3_link_adds_entry_and_count:
  assumes "fs n" and "IsDirectory n" and "fs old"
    and "\<forall>r \<in> set (tree d). \<not> (t_parent r = Inode n \<and> t_name r = N)"
    and "select_inode (inodes d) (Inode old) = Inr sd"
  shows "Link reliable d n N old
       = (Inr (Unmarshal (sd \<lparr> sd_Nlink := sd_Nlink sd + 1 \<rparr>)
                 (fileNode0 \<lparr> Inode := Inode old, Name := N, fs := True \<rparr>)),
          linked d (Inode n) N (Inode old) sd)
   \<and> (snd (Link f d n N old) = linked d (Inode n) N (Inode old) sd
       \<or> Link f d n N old = (Inl (Errno EIO), d))
   \<and> select_tree_inode (tree (linked d (Inode n) N (Inode old) sd)) (Inode n) N = Inr (Inode old)
   \<and> select_inode (inodes (linked d (Inode n) N (Inode old) sd)) (Inode old)
       = Inr (sd \<lparr> sd_Nlink := sd_Nlink sd + 1 \<rparr>)
   \<and> (unat (sd_Nlink sd) < 2 ^ 32 - 1
        \<longrightarrow> unat (sd_Nlink (sd \<lparr> sd_Nlink := sd_Nlink sd + 1 \<rparr>)) = unat (sd_Nlink sd) + 1)
   \<and> data_blocks (linked d (Inode n) N (Inode old) sd) = data_blocks d"
proof -
  let ?new = "fileNode0 \<lparr> Inode := Inode old, Name := N \<rparr>"
  let ?l = "linked d (Inode n) N (Inode old) sd"
  have free: "\<forall>r \<in> set (tree d). \<not> (t_parent r = Inode n \<and> t_name r = Name ?new)"
    using assms(4) by simp
  have row: "select_inode (inodes d) (Inode ?new) = Inr sd"
    using assms(5) by simp
  have attr: "\<And>g. \<exists>a. Attr g d old = Inr a \<and> a_Inode a = Inode old"
    using assms(3) by (simp add: Attr_def)
  have rel: "Link reliable d n N old
       = (Inr (Unmarshal (sd \<lparr> sd_Nlink := sd_Nlink sd + 1 \<rparr>)
                 (fileNode0 \<lparr> Inode := Inode old, Name := N, fs := True \<rparr>)), ?l)"
  proof -
    from attr [of reliable] obtain a where a: "Attr reliable d old = Inr a" "a_Inode a = Inode old"
      by blast
    have "CreateLink reliable d (Inode n) ?new = (None, ?l)"
      using CreateLink_new(2) [OF free row] by simp
    moreover have "GetNodeByID reliable ?l (Inode old)
        = Inr (Unmarshal (sd \<lparr> sd_Nlink := sd_Nlink sd + 1 \<rparr>) (fileNode0 \<lparr> Inode := Inode old \<rparr>))"
      by (simp add: GetNodeByID_def linked_def select_inode_upsert)
    ultimately show ?thesis
      using assms(1,2) a by (simp add: Link_def Unmarshal_def)
  qed
  have any: "snd (Link f d n N old) = ?l \<or> Link f d n N old = (Inl (Errno EIO), d)"
  proof -
    from attr [of f] obtain a where a: "Attr f d old = Inr a" "a_Inode a = Inode old"
      by blast
    from CreateLink_new(1) [OF free row, of "shift 1 f"]
    consider "CreateLink (shift 1 f) d (Inode n) ?new = (None, ?l)"
      | err where "CreateLink (shift 1 f) d (Inode n) ?new = (Some err, d)"
      by auto
    then show ?thesis
    proof cases
      case 1
      then show ?thesis
        using assms(1,2) a by (simp add: Link_def split: sum.splits)
    next
      case 2
      then show ?thesis
        using assms(1,2) a by (simp add: Link_def)
    qed
  qed
  have t: "select_tree_inode (tree ?l) (Inode n) N = Inr (Inode old)"
    using assms(4) by (simp add: linked_def select_tree_inode_append_new)
  have i: "select_inode (inodes ?l) (Inode old) = Inr (sd \<lparr> sd_Nlink := sd_Nlink sd + 1 \<rparr>)"
    by (simp add: linked_def select_inode_upsert)
  have w: "unat (sd_Nlink sd) < 2 ^ 32 - 1
        \<longrightarrow> unat (sd_Nlink (sd \<lparr> sd_Nlink := sd_Nlink sd + 1 \<rparr>)) = unat (sd_Nlink sd) + 1"
    by (simp add: unat_word_ariths)
  have b: "data_blocks ?l = data_blocks d"
    by (simp add: linked_def)
  from rel any t i w b show ?thesis by blast
qed

theorem C3_witness:
  "fs Root \<and> IsDirectory Root \<and> fs (file_node \<lparr> Inode := 3, fs := True \<rparr>)
   \<and> select_tree_inode (tree db1) (Inode Root) ''l'' = Inl ErrNoRows
   \<and> select_inode (inodes db1) 3 = Inr (toJSON file_node)
   \<and> unat (sd_Nlink (toJSON file_node)) = 2
   \<and> Link reliable db1 Root ''l'' (file_node \<lparr> Inode := 3, fs := True \<rparr>)
       = (Inr (file_node \<lparr> Inode := 3, fs := True, Nlink := 3, Name := ''l'' \<rparr>),
          db1 \<lparr> tree := tree db1 @ [\<lparr> t_inode = 3, t_parent = 1, t_name = ''l'' \<rparr>],
                inodes := [(2, toJSON dir_node), (3, toJSON (file_node \<lparr> Nlink := 3 \<rparr>)),
                           (4, toJSON single_node)] \<rparr>)"
  using C3_link_adds_entry_and_count [where d = db1 and n = Root and N = "''l''"
      and old = "file_node \<lparr> Inode := 3, fs := True \<rparr>" and sd = "toJSON file_node" and f = reliable]
  by (simp add: db1_def Root_def file_node_def fileNode0_def rootInode_def select_tree_inode_def
      select_inode_def toJSON_def IsDirectory_def ModeDir_def linked_def Unmarshal_def)

text \<open>
  Claim C3 as stated fails in its last part: a directory-type target is not rejected.
  Linking the directory \<^verbatim>\<open>/a\<close> (inode 2) under the name \<^verbatim>\<open>/l\<close> succeeds, adds the tree
  entry and raises the link count of the directory to 3. (And a name that is taken is
  not linked: linking the file under the existing name \<^verbatim>\<open>/a\<close> returns \<open>EIO\<close> and changes
  nothing.)
\<close>

theorem C3_counterexample:
  "IsDirectory (dir_node \<lparr> Inode := 2, fs := True \<rparr>)
   \<and> select_inode (inodes db1) 2 = Inr (toJSON dir_node)
   \<and> Link reliable db1 Root ''l'' (dir_node \<lparr> Inode := 2, fs := True \<rparr>)
       = (Inr (dir_node \<lparr> Inode := 2, fs := True, Nlink := 3, Name := ''l'' \<rparr>),
          db1 \<lparr> tree := tree db1 @ [\<lparr> t_inode = 2, t_parent = 1, t_name = ''l'' \<rparr>],
                inodes := [(2, toJSON (dir_node \<lparr> Nlink := 3 \<rparr>)), (3, toJSON file_node),
                           (4, toJSON single_node)] \<rparr>)
   \<and> tree (snd (Link reliable db1 Root ''l'' (dir_node \<lparr> Inode := 2, fs := True \<rparr>))) \<noteq> tree db1
   \<and> select_tree_inode (tree db1) (Inode Root) ''a'' = Inr 2
   \<and> Link reliable db1 Root ''a'' (file_node \<lparr> Inode := 3, fs := True \<rparr>)
       = (Inl (Errno EIO), db1)"
  by (simp add: db1_def Root_def dir_node_def file_node_def fileNode0_def rootInode_def
      select_inode_def select_tree_inode_def toJSON_def IsDirectory_def ModeDir_def Unmarshal_def
      Link_def Attr_def CreateLink_def GetNodeByID_def insert_tree_def)

subsection \<open>Helper lemmas: the size invariant\<close>

lemma inv_frame:
  "select_inode (inodes d') i = select_inode (inodes d) i \<Longrightarrow>
   select_blocks (data_blocks d') i = select_blocks (data_blocks d) i \<Longrightarrow>
   size_matches_blocks d' i = size_matches_blocks d i"
  by (simp add: size_matches_blocks_def split: sum.splits)

lemma select_inode_delete:
  "select_inode (delete_inode rows inode) i =
     (if i = inode then Inl ErrNoRows else select_inode rows i)"
proof -
  have "map_of (filter (\<lambda>r. fst r \<noteq> inode) rows) i = (if i = inode then None else map_of rows i)"
    by (induction rows) auto
  then show ?thesis by (simp add: select_inode_def delete_inode_def)
qed

lemma select_blocks_delete:
  "i \<noteq> inode \<Longrightarrow> select_blocks (delete_blocks blocks inode) i = select_blocks blocks i"
proof -
  assume "i \<noteq> inode"
  then have "filter (\<lambda>r. b_inode r = i) (filter (\<lambda>r. b_inode r \<noteq> inode) blocks)
      = filter (\<lambda>r. b_inode r = i) blocks"
    by (auto intro: filter_cong)
  then show ?thesis by (simp add: select_blocks_def delete_blocks_def)
qed

lemma select_blocks_append_other:
  "\<forall>r \<in> set rows. b_inode r \<noteq> i \<Longrightarrow> select_blocks (blocks @ rows) i = select_blocks blocks i"
proof -
  assume "\<forall>r \<in> set rows. b_inode r \<noteq> i"
  then have "filter (\<lambda>r. b_inode r = i) rows = []" by (simp add: filter_empty_conv)
  then show ?thesis by (simp add: select_blocks_def)
qed

lemma written_other:
  assumes "i \<noteq> Inode n"
  shows "size_matches_blocks (written d n c) i = size_matches_blocks d i"
proof (rule inv_frame)
  show "select_inode (inodes (written d n c)) i = select_inode (inodes d) i"
    using assms by (simp add: written_def select_inode_upsert)
  have "\<forall>r \<in> set (number_chunks (Inode n) 1 (split_chunks c)). b_inode r \<noteq> i"
    using assms number_chunks_inode by blast
  then show "select_blocks (data_blocks (written d n c)) i = select_blocks (data_blocks d) i"
    using assms by (simp add: written_def select_blocks_append_other select_blocks_delete)
qed

lemma written_same:
  assumes "length c < 2 ^ 64"
  shows "size_matches_blocks (written d n c) (Inode n)"
proof -
  have "select_blocks (data_blocks (written d n c)) (Inode n) = split_chunks c"
    by (simp add: written_def select_blocks_written)
  moreover have "select_inode (inodes (written d n c)) (Inode n)
      = Inr (toJSON (n \<lparr> Size := of_nat (length c) \<rparr>))"
    by (simp add: written_def select_inode_upsert)
  ultimately show ?thesis
    using unat_Size [OF assms] by (simp add: size_matches_blocks_def concat_split_chunks)
qed

lemma Write_preserves:
  assumes "length c < 2 ^ 64" and "size_matches_blocks d i"
  shows "case Write f d n c of (err, n', d') \<Rightarrow>
           size_matches_blocks d' i \<and> (err = None \<longrightarrow> size_matches_blocks d' (Inode n))"
proof (cases "fs n")
  case False
  with assms show ?thesis by (simp add: Write_def)
next
  case True
  from WriteData_cases [of f d n c] show ?thesis
  proof
    assume "WriteData f d n c = (None, n \<lparr> Size := of_nat (length c) \<rparr>, written d n c)"
    with True assms written_same [OF assms(1), of d n] written_other [of i n d c]
    show ?thesis by (cases "i = Inode n") (simp_all add: Write_def)
  next
    assume "\<exists>err n'. WriteData f d n c = (Some err, n', d)"
    with True assms show ?thesis by (auto simp: Write_def)
  qed
qed

lemma Rename_preserves:
  assumes "size_matches_blocks d i"
  shows "case Rename f d n oldName newName newDir of (err, d') \<Rightarrow> size_matches_blocks d' i"
proof -
  have "inodes (snd (Rename f d n oldName newName newDir)) = inodes d
      \<and> data_blocks (snd (Rename f d n oldName newName newDir)) = data_blocks d"
    by (simp add: Rename_def RenameNode_def exec_def split: sum.splits)
  with assms inv_frame [of "snd (Rename f d n oldName newName newDir)" i d]
  show ?thesis by (simp add: split_beta)
qed

lemma CreateLink_rows:
  "data_blocks (snd (CreateLink f d parent n)) = data_blocks d
   \<and> (inodes (snd (CreateLink f d parent n)) = inodes d
      \<or> (\<exists>sd. select_inode (inodes d) (Inode n) = Inr sd
            \<and> inodes (snd (CreateLink f d parent n))
                = upsert_inode (inodes d) (Inode n) (sd \<lparr> sd_Nlink := sd_Nlink sd + 1 \<rparr>)))"
  by (simp add: CreateLink_def GetNodeByID_def exec_def split: sum.splits)

lemma CreateLink_preserves:
  assumes "size_matches_blocks d i"
  shows "size_matches_blocks (snd (CreateLink f d parent n)) i"
proof -
  let ?d' = "snd (CreateLink f d parent n)"
  from CreateLink_rows [of f d parent n] have b: "data_blocks ?d' = data_blocks d" by blast
  from CreateLink_rows [of f d parent n] consider "inodes ?d' = inodes d"
    | sd where "select_inode (inodes d) (Inode n) = Inr sd"
        "inodes ?d' = upsert_inode (inodes d) (Inode n) (sd \<lparr> sd_Nlink := sd_Nlink sd + 1 \<rparr>)"
    by blast
  then show ?thesis
  proof cases
    case 1
    with b assms inv_frame [of ?d' i d] show ?thesis by simp
  next
    case 2
    show ?thesis
    proof (cases "i = Inode n")
      case True
      with 2 b assms show ?thesis
        by (simp add: size_matches_blocks_def select_inode_upsert)
    next
      case False
      with 2 b assms inv_frame [of ?d' i d] show ?thesis
        by (simp add: select_inode_upsert)
    qed
  qed
qed

lemma Link_preserves:
  assumes "size_matches_blocks d i"
  shows "case Link f d n N old of (res, d') \<Rightarrow> size_matches_blocks d' i"
proof (cases "Attr f d old")
  case (Inl p)
  with assms show ?thesis by (simp add: Link_def)
next
  case (Inr attr)
  let ?c = "CreateLink (shift 1 f) d (Inode n) (fileNode0 \<lparr> Inode := a_Inode attr, Name := N \<rparr>)"
  obtain err d' where c: "?c = (err, d')" by (cases ?c)
  have "size_matches_blocks (snd ?c) i" using assms by (rule CreateLink_preserves)
  with c have d': "size_matches_blocks d' i" by simp
  have "snd (Link f d n N old) = d \<or> snd (Link f d n N old) = d'"
    using Inr c by (simp add: Link_def split: sum.splits option.splits)
  with assms d' show ?thesis by (auto simp: split_beta)
qed

lemma RemoveNodeByName_rows:
  "snd (RemoveNodeByName f d parent name inode) = (d, None)
   \<or> (\<exists>tx. snd (RemoveNodeByName f d parent name inode) = (d, Some tx))
   \<or> snd (RemoveNodeByName f d parent name inode)
        = (d \<lparr> tree := delete_tree (tree d) parent name, inodes := delete_inode (inodes d) inode,
               data_blocks := delete_blocks (data_blocks d) inode \<rparr>, None)"
  by (simp add: RemoveNodeByName_def exec_def)

lemma deleted_preserves:
  assumes "size_matches_blocks d i"
  shows "size_matches_blocks (d \<lparr> tree := t, inodes := delete_inode (inodes d) inode,
               data_blocks := delete_blocks (data_blocks d) inode \<rparr>) i"
proof (cases "i = inode")
  case True
  then show ?thesis by (simp add: size_matches_blocks_def select_inode_delete)
next
  case False
  let ?d' = "d \<lparr> tree := t, inodes := delete_inode (inodes d) inode,
               data_blocks := delete_blocks (data_blocks d) inode \<rparr>"
  from False have "select_inode (inodes ?d') i = select_inode (inodes d) i"
    and "select_blocks (data_blocks ?d') i = select_blocks (data_blocks d) i"
    by (simp_all add: select_inode_delete select_blocks_delete)
  with assms inv_frame [of ?d' i d] show ?thesis by simp
qed

lemma RemoveNodeByName_preserves:
  assumes "size_matches_blocks d i"
  shows "size_matches_blocks (fst (snd (RemoveNodeByName f d parent name inode))) i"
  using RemoveNodeByName_rows [of f d parent name inode] assms deleted_preserves [OF assms]
  by auto

lemma Remove_preserves:
  assumes "size_matches_blocks d i"
  shows "case Remove f d n req of (err, d', tx) \<Rightarrow> size_matches_blocks d' i"
proof (cases "GetNodeByName f d (Inode n) (rr_Name req)")
  case (Inl err)
  with assms show ?thesis by (simp add: Remove_def)
next
  case (Inr toRemove)
  let ?r = "RemoveNodeByName (shift 3 f) d (Inode n) (rr_Name req) (Inode toRemove)"
  obtain err d' tx where r: "?r = (err, d', tx)" by (cases ?r)
  have "size_matches_blocks (fst (snd ?r)) i" using assms by (rule RemoveNodeByName_preserves)
  with r have d': "size_matches_blocks d' i" by simp
  have "fst (snd (Remove f d n req)) = d \<or> fst (snd (Remove f d n req)) = d'"
    using Inr r by (simp add: Remove_def split: sum.splits option.splits)
  with assms d' show ?thesis by (auto simp: split_beta)
qed

lemma UpsertNode_rows:
  "data_blocks (snd (snd (UpsertNode f now1 now2 d parent n))) = data_blocks d
   \<and> (inodes (snd (snd (UpsertNode f now1 now2 d parent n))) = inodes d
      \<or> inodes (snd (snd (UpsertNode f now1 now2 d parent n)))
          = upsert_inode (inodes d) (inode_seq d)
              (toJSON (n \<lparr> Mtime := now1, Ctime := now2, Inode := inode_seq d \<rparr>)))"
  by (simp add: UpsertNode_def Let_def exec_def split: sum.splits)

lemma UpsertNode_preserves:
  assumes "size_matches_blocks d i"
    and "\<forall>r \<in> set (data_blocks d). b_inode r \<noteq> inode_seq d"
    and "Size n = 0"
  shows "size_matches_blocks (snd (snd (UpsertNode f now1 now2 d parent n))) i"
proof -
  let ?d' = "snd (snd (UpsertNode f now1 now2 d parent n))"
  from UpsertNode_rows [of f now1 now2 d parent n] have b: "data_blocks ?d' = data_blocks d" by blast
  from UpsertNode_rows [of f now1 now2 d parent n] consider "inodes ?d' = inodes d"
    | "inodes ?d' = upsert_inode (inodes d) (inode_seq d)
              (toJSON (n \<lparr> Mtime := now1, Ctime := now2, Inode := inode_seq d \<rparr>))"
    by blast
  then show ?thesis
  proof cases
    case 1
    with b assms(1) inv_frame [of ?d' i d] show ?thesis by simp
  next
    case 2
    show ?thesis
    proof (cases "i = inode_seq d")
      case True
      from assms(2) have "filter (\<lambda>r. b_inode r = inode_seq d) (data_blocks d) = []"
        by (simp add: filter_empty_conv)
      then have "select_blocks (data_blocks d) (inode_seq d) = []"
        by (simp add: select_blocks_def)
      with True 2 b assms(3) show ?thesis
        by (simp add: size_matches_blocks_def select_inode_upsert toJSON_def)
    next
      case False
      with 2 b assms(1) inv_frame [of ?d' i d] show ?thesis
        by (simp add: select_inode_upsert)
    qed
  qed
qed


lemma Create_preserves:
  assumes "size_matches_blocks d i"
    and "\<forall>r \<in> set (data_blocks d). b_inode r \<noteq> inode_seq d"
  shows "case Create f now1 now2 d n N mode of (res, d') \<Rightarrow> size_matches_blocks d' i"
proof (cases "fs n")
  case False
  with assms show ?thesis by (simp add: Create_def)
next
  case True
  let ?new = "fileNode0 \<lparr> fs := fs n, Name := N, Mode := mode, Nlink := 1 \<rparr>"
  let ?u = "UpsertNode f now1 now2 d (Inode n) ?new"
  obtain err n' d' where u: "?u = (err, n', d')" by (cases ?u)
  have "Size ?new = 0" by (simp add: fileNode0_def)
  with assms have "size_matches_blocks (snd (snd ?u)) i" by (rule UpsertNode_preserves)
  with u have "size_matches_blocks d' i" by simp
  with True u show ?thesis by (simp add: Create_def split: option.splits)
qed

lemma Mkdir_preserves:
  assumes "size_matches_blocks d i"
    and "\<forall>r \<in> set (data_blocks d). b_inode r \<noteq> inode_seq d"
  shows "case Mkdir f now1 now2 d n N mode of (res, d') \<Rightarrow> size_matches_blocks d' i"
proof (cases "fs n")
  case False
  with assms show ?thesis by (simp add: Mkdir_def)
next
  case True
  let ?new = "fileNode0 \<lparr> fs := fs n, Name := N, Mode := mode, Nlink := 2 \<rparr>"
  let ?u = "UpsertNode f now1 now2 d (Inode n) ?new"
  obtain err n' d' where u: "?u = (err, n', d')" by (cases ?u)
  have "Size ?new = 0" by (simp add: fileNode0_def)
  with assms have "size_matches_blocks (snd (snd ?u)) i" by (rule UpsertNode_preserves)
  with u have "size_matches_blocks d' i" by simp
  with True u show ?thesis by (simp add: Mkdir_def split: option.splits)
qed


lemma UpsertNode_preserves_special:
  assumes "size_matches_blocks d i"
    and "Mode n AND ModeType \<noteq> 0"
  shows "size_matches_blocks (snd (snd (UpsertNode f now1 now2 d parent n))) i"
proof -
  let ?d' = "snd (snd (UpsertNode f now1 now2 d parent n))"
  from UpsertNode_rows [of f now1 now2 d parent n] have b: "data_blocks ?d' = data_blocks d" by blast
  from UpsertNode_rows [of f now1 now2 d parent n] consider "inodes ?d' = inodes d"
    | "inodes ?d' = upsert_inode (inodes d) (inode_seq d)
              (toJSON (n \<lparr> Mtime := now1, Ctime := now2, Inode := inode_seq d \<rparr>))"
    by blast
  then show ?thesis
  proof cases
    case 1
    with b assms(1) inv_frame [of ?d' i d] show ?thesis by simp
  next
    case 2
    show ?thesis
    proof (cases "i = inode_seq d")
      case True
      with 2 assms(2) show ?thesis
        by (simp add: size_matches_blocks_def select_inode_upsert toJSON_def)
    next
      case False
      with 2 b assms(1) inv_frame [of ?d' i d] show ?thesis
        by (simp add: select_inode_upsert)
    qed
  qed
qed

lemma Mknod_preserves:
  assumes "size_matches_blocks d i"
    and "\<forall>r \<in> set (data_blocks d). b_inode r \<noteq> inode_seq d"
  shows "case Mknod f now1 now2 d n N mode of (res, d') \<Rightarrow> size_matches_blocks d' i"
proof (cases "fs n")
  case False
  with assms show ?thesis by (simp add: Mknod_def)
next
  case True
  let ?new = "fileNode0 \<lparr> fs := fs n, Name := N, Mode := mode, Nlink := 1 \<rparr>"
  let ?u = "UpsertNode f now1 now2 d (Inode n) ?new"
  obtain err n' d' where u: "?u = (err, n', d')" by (cases ?u)
  have "Size ?new = 0" by (simp add: fileNode0_def)
  with assms have "size_matches_blocks (snd (snd ?u)) i" by (rule UpsertNode_preserves)
  with u have "size_matches_blocks d' i" by simp
  with True u show ?thesis by (simp add: Mknod_def split: option.splits)
qed

lemma symlink_mode: "(ModeSymlink OR 493) AND ModeType \<noteq> (0 :: uint32)"
  by (simp add: ModeType_def ModeDir_def ModeSymlink_def ModeDevice_def ModeNamedPipe_def
      ModeSocket_def ModeCharDevice_def ModeIrregular_def)

lemma Symlink_preserves:
  assumes "size_matches_blocks d i"
  shows "case Symlink f now1 now2 d n N target of (res, d') \<Rightarrow> size_matches_blocks d' i"
proof (cases "fs n \<and> IsDirectory n")
  case False
  with assms show ?thesis by (auto simp: Symlink_def)
next
  case True
  let ?new = "fileNode0 \<lparr> fs := fs n, Name := N, Mode := ModeSymlink OR 493,
                            SymlinkTarget := target, Nlink := 1 \<rparr>"
  let ?u = "UpsertNode f now1 now2 d (Inode n) ?new"
  obtain err n' d' where u: "?u = (err, n', d')" by (cases ?u)
  have "Mode ?new AND ModeType \<noteq> 0" using symlink_mode by simp
  with assms have "size_matches_blocks (snd (snd ?u)) i" by (rule UpsertNode_preserves_special)
  with u have "size_matches_blocks d' i" by simp
  with True u show ?thesis by (simp add: Symlink_def split: option.splits)
qed


subsection \<open>Claims about the size invariant\<close>

text \<open>
  Claim C9, as amended. A whole-file write of at most \<open>2 ^ 64 - 1\<close> bytes that succeeds
  establishes the invariant \<open>size_matches_blocks\<close> for the inode written, and every
  operation that writes to the store, other than \<open>Setattr\<close>, preserves it for every
  inode, whatever statement the store fails: \<open>Write\<close>, \<open>Rename\<close>, \<open>Link\<close>, \<open>Remove\<close>,
  \<open>Symlink\<close>, and \<open>Create\<close>, \<open>Mkdir\<close> and \<open>Mknod\<close> (for these three: provided no data
  block already carries the inode number the sequence hands out next). The remaining
  operations issue no writing statement.
\<close>

theorem C9_size_invariant_without_setattr:
  "(length c < 2 ^ 64 \<longrightarrow>
      (case Write f d n c of
         (err, n', d') \<Rightarrow>
           (err = None \<longrightarrow> size_matches_blocks d' (Inode n))
           \<and> (size_matches_blocks d i \<longrightarrow> size_matches_blocks d' i)))
   \<and> (size_matches_blocks d i \<longrightarrow>
        (case Rename f d n oldName newName newDir of (err, d') \<Rightarrow> size_matches_blocks d' i)
        \<and> (case Link f d n N old of (res, d') \<Rightarrow> size_matches_blocks d' i)
        \<and> (case Remove f d n req of (err, d', tx) \<Rightarrow> size_matches_blocks d' i)
        \<and> (case Symlink f now1 now2 d n N target of (res, d') \<Rightarrow> size_matches_blocks d' i)
        \<and> ((\<forall>r \<in> set (data_blocks d). b_inode r \<noteq> inode_seq d) \<longrightarrow>
              (case Create f now1 now2 d n N mode of (res, d') \<Rightarrow> size_matches_blocks d' i)
              \<and> (case Mkdir f now1 now2 d n N mode of (res, d') \<Rightarrow> size_matches_blocks d' i)
              \<and> (case Mknod f now1 now2 d n N mode of (res, d') \<Rightarrow> size_matches_blocks d' i)))"
proof (intro conjI impI)
  assume len: "length c < 2 ^ 64"
  show "case Write f d n c of
         (err, n', d') \<Rightarrow>
           (err = None \<longrightarrow> size_matches_blocks d' (Inode n))
           \<and> (size_matches_blocks d i \<longrightarrow> size_matches_blocks d' i)"
  proof (cases "size_matches_blocks d i")
    case True
    with Write_preserves [OF len True, where f = f and n = n] show ?thesis by (auto simp: split_beta)
  next
    case False
    show ?thesis
    proof (cases "fs n")
      case nofs: False
      with False show ?thesis by (simp add: Write_def)
    next
      case True
      from WriteData_cases [of f d n c] show ?thesis
      proof
        assume "WriteData f d n c = (None, n \<lparr> Size := of_nat (length c) \<rparr>, written d n c)"
        with True False written_same [OF len, of d n] show ?thesis by (simp add: Write_def)
      next
        assume "\<exists>err n'. WriteData f d n c = (Some err, n', d)"
        with True False show ?thesis by (auto simp: Write_def)
      qed
    qed
  qed
next
  assume "size_matches_blocks d i"
  then show "case Rename f d n oldName newName newDir of (err, d') \<Rightarrow> size_matches_blocks d' i"
    by (rule Rename_preserves)
next
  assume "size_matches_blocks d i"
  then show "case Link f d n N old of (res, d') \<Rightarrow> size_matches_blocks d' i"
    by (rule Link_preserves)
next
  assume "size_matches_blocks d i"
  then show "case Remove f d n req of (err, d', tx) \<Rightarrow> size_matches_blocks d' i"
    by (rule Remove_preserves)
next
  assume "size_matches_blocks d i"
  then show "case Symlink f now1 now2 d n N target of (res, d') \<Rightarrow> size_matches_blocks d' i"
    by (rule Symlink_preserves)
next
  assume "size_matches_blocks d i" "\<forall>r \<in> set (data_blocks d). b_inode r \<noteq> inode_seq d"
  then show "case Create f now1 now2 d n N mode of (res, d') \<Rightarrow> size_matches_blocks d' i"
    by (rule Create_preserves)
next
  assume "size_matches_blocks d i" "\<forall>r \<in> set (data_blocks d). b_inode r \<noteq> inode_seq d"
  then show "case Mkdir f now1 now2 d n N mode of (res, d') \<Rightarrow> size_matches_blocks d' i"
    by (rule Mkdir_preserves)
next
  assume "size_matches_blocks d i" "\<forall>r \<in> set (data_blocks d). b_inode r \<noteq> inode_seq d"
  then show "case Mknod f now1 now2 d n N mode of (res, d') \<Rightarrow> size_matches_blocks d' i"
    by (rule Mknod_preserves)
qed

lemma db1_inv: "size_matches_blocks db1 3"
  by (simp add: size_matches_blocks_def db1_def select_inode_def select_blocks_def
      toJSON_def file_node_def fileNode0_def)

theorem C9_witness:
  "length [1, 2, 3 :: byte] < 2 ^ 64
   \<and> size_matches_blocks db1 3
   \<and> select_blocks (data_blocks db1) (inode_seq db1) = []
   \<and> fst (Write reliable db1 (file_node \<lparr> Inode := 3, fs := True \<rparr>) [1, 2, 3]) = None
   \<and> size_matches_blocks (snd (snd (Write reliable db1 (file_node \<lparr> Inode := 3, fs := True \<rparr>) [1, 2, 3]))) 3
   \<and> size_matches_blocks (snd (Rename reliable db1 Root ''c'' ''d'' Root)) 3
   \<and> size_matches_blocks (snd (Link reliable db1 Root ''l'' (file_node \<lparr> Inode := 3, fs := True \<rparr>))) 3
   \<and> size_matches_blocks (fst (snd (Remove reliable db1 Root \<lparr> rr_Name = ''f'', rr_Dir = False \<rparr>))) 3
   \<and> size_matches_blocks (snd (Symlink reliable 10 11 db1 Root ''s'' ''c'')) 3
   \<and> size_matches_blocks (snd (Create reliable 10 11 db1 Root ''new'' 420)) 3
   \<and> size_matches_blocks (snd (Mkdir reliable 10 11 db1 Root ''dir'' (ModeDir OR 493))) 3
   \<and> size_matches_blocks (snd (Mknod reliable 10 11 db1 Root ''pipe'' (ModeNamedPipe OR 420))) 3"
  using C9_size_invariant_without_setattr [where d = db1 and i = 3 and f = reliable
      and n = "file_node \<lparr> Inode := 3, fs := True \<rparr>" and c = "[1, 2, 3]"]
    C9_size_invariant_without_setattr [where d = db1 and i = 3 and f = reliable
      and n = Root and c = "[]" and oldName = "''c''" and newName = "''d''" and newDir = Root
      and N = "''l''" and old = "file_node \<lparr> Inode := 3, fs := True \<rparr>"
      and req = "\<lparr> rr_Name = ''f'', rr_Dir = False \<rparr>"]
    C9_size_invariant_without_setattr [where d = db1 and i = 3 and f = reliable
      and n = Root and c = "[]" and N = "''s''" and target = "''c''" and ?now1.0 = 10 and ?now2.0 = 11]
    C9_size_invariant_without_setattr [where d = db1 and i = 3 and f = reliable
      and n = Root and c = "[]" and N = "''new''" and mode = 420 and ?now1.0 = 10 and ?now2.0 = 11]
    C9_size_invariant_without_setattr [where d = db1 and i = 3 and f = reliable
      and n = Root and c = "[]" and N = "''dir''" and mode = "ModeDir OR 493" and ?now1.0 = 10 and ?now2.0 = 11]
    C9_size_invariant_without_setattr [where d = db1 and i = 3 and f = reliable
      and n = Root and c = "[]" and N = "''pipe''" and mode = "ModeNamedPipe OR 420"
      and ?now1.0 = 10 and ?now2.0 = 11]
    db1_inv WriteData_reliable [of db1 "file_node \<lparr> Inode := 3, fs := True \<rparr>" "[1, 2, 3]"]
  by (simp add: split_beta Write_def) (simp add: db1_def select_blocks_def)

text \<open>
  Claim C9 as stated fails for \<open>Setattr\<close>. The node that \<open>Lookup\<close> returns for \<^verbatim>\<open>/c\<close> is a
  regular file of 5 bytes; a \<^verbatim>\<open>setattr\<close> request with the size 10 succeeds, records the
  size 10 and leaves the data blocks alone, so the blocks still concatenate to the 5
  bytes \<^verbatim>\<open>hello\<close>: the recorded size is neither the length of the stored stream nor a
  bound the stream reaches.
\<close>

theorem C9_counterexample:
  "Lookup reliable db1 Root ''c'' = Inr (file_node \<lparr> Inode := 3, fs := True \<rparr>)
   \<and> IsRegular (file_node \<lparr> Inode := 3, fs := True \<rparr>)
   \<and> size_matches_blocks db1 3
   \<and> Setattr reliable db1 (file_node \<lparr> Inode := 3, fs := True \<rparr>) grow_request
       = (None, file_node \<lparr> Inode := 3, fs := True, Size := 10 \<rparr>,
          db1 \<lparr> inodes := [(2, toJSON dir_node), (3, toJSON (file_node \<lparr> Size := 10 \<rparr>)),
                            (4, toJSON single_node)] \<rparr>)
   \<and> \<not> size_matches_blocks
         (db1 \<lparr> inodes := [(2, toJSON dir_node), (3, toJSON (file_node \<lparr> Size := 10 \<rparr>)),
                            (4, toJSON single_node)] \<rparr>) 3
   \<and> ReadData reliable
         (db1 \<lparr> inodes := [(2, toJSON dir_node), (3, toJSON (file_node \<lparr> Size := 10 \<rparr>)),
                            (4, toJSON single_node)] \<rparr>) 3
       = Inr [104, 101, 108, 108, 111]"
  by (simp add: db1_def Root_def file_node_def fileNode0_def rootInode_def Lookup_def
      IsDirectory_def IsRegular_def ModeDir_def ModeType_def ModeSymlink_def ModeDevice_def
      ModeNamedPipe_def ModeSocket_def ModeCharDevice_def ModeIrregular_def
      GetNodeByName_def GetNodeByID_def select_tree_inode_def select_inode_def Unmarshal_def
      toJSON_def Setattr_def UpdateNode_def grow_request_def assign_def
      size_matches_blocks_def select_blocks_def ReadData_def)

subsection \<open>Stored link counts under removal\<close>

text \<open>
  No path of \<open>Remove\<close> rewrites a node row: a row found in the committed database after
  the call was there, unchanged, before the call, and a transaction left open sees the
  node rows of before the call. In particular a stored link count never goes down.
\<close>

lemma RemoveNodeByName_link_counts:
  assumes "select_inode (inodes (fst (snd (RemoveNodeByName f d parent name inode)))) i = Inr sd"
  shows "select_inode (inodes d) i = Inr sd"
  using RemoveNodeByName_rows [of f d parent name inode] assms
  by (auto simp: select_inode_delete split: if_splits)

lemma RemoveNodeByName_open_tx:
  "snd (snd (RemoveNodeByName f d parent name inode)) = Some v \<Longrightarrow> inodes v = inodes d"
  by (auto simp: RemoveNodeByName_def exec_def split: if_splits)

lemma Remove_link_counts:
  assumes "select_inode (inodes (fst (snd (Remove f d n req)))) i = Inr sd"
  shows "select_inode (inodes d) i = Inr sd"
proof (cases "GetNodeByName f d (Inode n) (rr_Name req)")
  case (Inl err)
  with assms show ?thesis by (simp add: Remove_def split: if_splits)
next
  case (Inr toRemove)
  let ?r = "RemoveNodeByName (shift 3 f) d (Inode n) (rr_Name req) (Inode toRemove)"
  obtain err d' tx where r: "?r = (err, d', tx)" by (cases ?r)
  have "fst (snd (Remove f d n req)) = d \<or> fst (snd (Remove f d n req)) = d'"
    using Inr r by (simp add: Remove_def split: sum.splits option.splits)
  then show ?thesis
  proof
    assume "fst (snd (Remove f d n req)) = d"
    with assms show ?thesis by simp
  next
    assume "fst (snd (Remove f d n req)) = d'"
    with assms r RemoveNodeByName_link_counts [of "shift 3 f" d "Inode n" "rr_Name req" "Inode toRemove" i sd]
    show ?thesis by simp
  qed
qed

subsection \<open>The scenario\<close>

text \<open>
  The scenario gives what the specification expects: \<^verbatim>\<open>/a/b\<close> reads \<^verbatim>\<open>hello\<close>; after the
  rename \<^verbatim>\<open>/a/b\<close> is not found, and \<^verbatim>\<open>/a/c\<close> is the same inode and reads \<^verbatim>\<open>hello\<close>.
\<close>

lemma scenario_result:
  "scenario =
     Some (Inr (fileNode0 \<lparr> fs := True, Inode := 3, Size := 5, Mtime := 2, Ctime := 2,
                             Mode := 420, Nlink := 1 \<rparr>),
           Inr hello,
           Inl (Errno ENOENT),
           Inr (fileNode0 \<lparr> fs := True, Inode := 3, Size := 5, Mtime := 2, Ctime := 2,
                             Mode := 420, Nlink := 1 \<rparr>),
           Inr hello)"
  by (simp add: scenario_def hello_def db0_def Root_def fileNode0_def rootInode_def
      Mkdir_def Create_def Write_def Rename_def Lookup_def UpsertNode_def insert_tree_def
      WriteData_def write_chunks.simps insert_block_def delete_blocks_def BLOCK_SIZE_def
      Attr_def RenameNode_def update_tree_def GetNodeByName_def GetNodeByID_def
      select_tree_inode_def select_inode_def Unmarshal_def toJSON_def ReadData_def
      select_blocks_def IsDirectory_def ModeDir_def)

end
